theory Spec2Isabelle
  imports Complex_Main "HOL-Library.AList" "HOL-Library.Char_ord" "HOL-Library.List_Lexorder" "HOL-Library.Multiset"
begin

section \<open>WireGuard Namespace Manager: a shallow embedding of WGNM.py\<close>

text \<open>
  Python values are modelled as follows: \<open>int\<close> is HOL's unbounded \<open>int\<close>; \<open>str\<close> is
  \<open>string\<close>, a list of characters read as code points below 256 (identifiers, ports,
  paths and command words of the program are ASCII); \<open>sorted\<close> on strings is \<open>sort\<close>
  under the lexicographic order of code points (\<open>Char_ord\<close>, \<open>List_Lexorder\<close>);
  \<open>Optional[T]\<close> is \<open>T option\<close>.
\<close>

subsection \<open>Python string primitives\<close>

text \<open>\<open>str(n)\<close> for an integer: decimal digits, with a leading minus sign when negative.\<close>

definition digit_char :: "nat \<Rightarrow> char" where
  "digit_char d = ''0123456789'' ! d"

fun str_nat :: "nat \<Rightarrow> string" where
  "str_nat n = (if n < 10 then [digit_char n] else str_nat (n div 10) @ [digit_char (n mod 10)])"

declare str_nat.simps [simp del]

definition str_int :: "int \<Rightarrow> string" where
  "str_int i = (if i < 0 then CHR ''-'' # str_nat (nat (- i)) else str_nat (nat i))"

subsection \<open>Topology allocation (the per-port names and addresses)\<close>

text \<open>The expression \<open>(port % 250) + 2\<close>; Python's \<open>%\<close> with a positive modulus is \<open>mod\<close>.\<close>

definition subnet_octet :: "int \<Rightarrow> int" where
  "subnet_octet port = (port mod 250) + 2"

record topology =
  t_subnet_octet :: int
  t_ns_name :: string
  t_veth_host :: string
  t_veth_ns :: string
  t_host_ip :: string
  t_ns_ip :: string
  t_subnet :: string

text \<open>\<open>create_setup\<close>, lines 2176-2184.\<close>

definition create_topology :: "int \<Rightarrow> topology" where
  "create_topology port =
     (let subnet_octet = (port mod 250) + 2 in
      \<lparr> t_subnet_octet = subnet_octet,
        t_ns_name = ''ns-'' @ str_int port,
        t_veth_host = ''veth-'' @ str_int port,
        t_veth_ns = ''vpeer-'' @ str_int port,
        t_host_ip = ''10.100.'' @ str_int subnet_octet @ ''.1'',
        t_ns_ip = ''10.100.'' @ str_int subnet_octet @ ''.2'',
        t_subnet = ''10.100.'' @ str_int subnet_octet @ ''.0/24'' \<rparr>)"

text \<open>\<open>restore_setup\<close>, lines 677 and 690-695.\<close>

definition restore_topology :: "int \<Rightarrow> topology" where
  "restore_topology port =
     (let ns_name = ''ns-'' @ str_int port;
          subnet_octet = (port mod 250) + 2 in
      \<lparr> t_subnet_octet = subnet_octet,
        t_ns_name = ns_name,
        t_veth_host = ''veth-'' @ str_int port,
        t_veth_ns = ''vpeer-'' @ str_int port,
        t_host_ip = ''10.100.'' @ str_int subnet_octet @ ''.1'',
        t_ns_ip = ''10.100.'' @ str_int subnet_octet @ ''.2'',
        t_subnet = ''10.100.'' @ str_int subnet_octet @ ''.0/24'' \<rparr>)"

text \<open>
  \<open>delete_setup\<close>, lines 2678-2703. The namespace list is what \<open>ip netns list\<close> printed.
  Port 9349 falls back to the legacy namespace \<open>nsxray\<close> when \<open>ns-9349\<close> is absent and
  \<open>nsxray\<close> is present; that branch uses fixed names and computes no octet.
\<close>

record delete_topology =
  d_ns_name :: string
  d_namespace_exists :: bool
  d_subnet_octet :: "int option"
  d_veth_host :: string
  d_ns_ip :: string
  d_subnet :: string

definition delete_topology :: "int \<Rightarrow> string list \<Rightarrow> delete_topology" where
  "delete_topology port ns_list =
     (let ns_name0 = ''ns-'' @ str_int port;
          (ns_name, namespace_exists) =
             (if ns_name0 \<in> set ns_list then (ns_name0, True)
              else if port = 9349 \<and> ''nsxray'' \<in> set ns_list then (''nsxray'', True)
              else (ns_name0, False))
      in if ns_name = ''nsxray''
         then \<lparr> d_ns_name = ns_name, d_namespace_exists = namespace_exists,
                d_subnet_octet = None,
                d_veth_host = ''veth-host'',
                d_ns_ip = ''10.200.200.2'',
                d_subnet = ''10.200.200.0/24'' \<rparr>
         else (let subnet_octet = (port mod 250) + 2 in
               \<lparr> d_ns_name = ns_name, d_namespace_exists = namespace_exists,
                 d_subnet_octet = Some subnet_octet,
                 d_veth_host = ''veth-'' @ str_int port,
                 d_ns_ip = ''10.100.'' @ str_int subnet_octet @ ''.2'',
                 d_subnet = ''10.100.'' @ str_int subnet_octet @ ''.0/24'' \<rparr>))"

text \<open>\<open>debug_setup\<close>, lines 2851-2854: the octet and the host link name.\<close>

definition debug_topology :: "int \<Rightarrow> int \<times> string" where
  "debug_topology port =
     (let subnet_octet = (port mod 250) + 2;
          veth_host = ''veth-'' @ str_int port
      in (subnet_octet, veth_host))"

text \<open>\<open>enable_realtime_logging\<close>, lines 2880-2883: the octet and the namespace address.\<close>

definition realtime_logging_topology :: "int \<Rightarrow> int \<times> string" where
  "realtime_logging_topology port =
     (let subnet_octet = (port mod 250) + 2;
          ns_ip = ''10.100.'' @ str_int subnet_octet @ ''.2''
      in (subnet_octet, ns_ip))"

subsection \<open>Content hash of an identifier list\<close>

text \<open>\<open>"\\n".join(xs)\<close>.\<close>

fun join_nl :: "string list \<Rightarrow> string" where
  "join_nl [] = []"
| "join_nl [x] = x"
| "join_nl (x # y # ys) = x @ CHR 0x0A # join_nl (y # ys)"

text \<open>
  \<open>get_uuids_hash\<close>, lines 362-366. The parameter \<open>md5\<close> stands for the library call
  \<open>hashlib.md5(s.encode("utf-8")).hexdigest()\<close>.
\<close>

definition get_uuids_hash :: "(string \<Rightarrow> string) \<Rightarrow> string list \<Rightarrow> string" where
  "get_uuids_hash md5 uuids =
     (let sorted_uuids = sort uuids;
          uuid_string = join_nl sorted_uuids
      in md5 uuid_string)"

subsection \<open>Text files and the per-port identifier files\<close>

text \<open>
  \<open>str.strip()\<close> removes leading and trailing whitespace; below code point 256
  Python's whitespace characters are the twelve listed here.
\<close>

definition py_whitespace :: "char list" where
  "py_whitespace = [CHR 0x09, CHR 0x0A, CHR 0x0B, CHR 0x0C, CHR 0x0D, CHR 0x1C, CHR 0x1D,
                    CHR 0x1E, CHR 0x1F, CHR 0x20, CHR 0x85, CHR 0xA0]"

definition isspace :: "char \<Rightarrow> bool" where
  "isspace c = (c \<in> set py_whitespace)"

definition strip :: "string \<Rightarrow> string" where
  "strip s = rev (dropWhile isspace (rev (dropWhile isspace s)))"

text \<open>
  A file opened in text mode (\<open>newline=None\<close>) translates \<open>\\r\\n\<close> and a lone
  \<open>\\r\<close> to \<open>\\n\<close> on reading; on Linux writing leaves \<open>\\n\<close> as it is.
\<close>

fun universal_newlines :: "string \<Rightarrow> string" where
  "universal_newlines [] = []"
| "universal_newlines (c # cs) =
     (if c = CHR 0x0D
      then (case cs of
              [] \<Rightarrow> [CHR 0x0A]
            | d # ds \<Rightarrow> if d = CHR 0x0A then CHR 0x0A # universal_newlines ds
                       else CHR 0x0A # universal_newlines cs)
      else c # universal_newlines cs)"

text \<open>
  Iterating over a text file (and \<open>readlines()\<close>) yields the lines with their
  terminating \<open>\\n\<close>; a last line without terminator is yielded as it is.
\<close>

fun file_lines :: "string \<Rightarrow> string list" where
  "file_lines [] = []"
| "file_lines (c # cs) =
     (if c = CHR 0x0A then [c] # file_lines cs
      else (case file_lines cs of [] \<Rightarrow> [[c]] | l # ls \<Rightarrow> (c # l) # ls))"

definition read_lines :: "string \<Rightarrow> string list" where
  "read_lines content = file_lines (universal_newlines content)"

text \<open>
  Files are a map from path to content. \<open>write_error p\<close> and \<open>read_error p\<close> say
  that opening \<open>p\<close> for writing or reading raises; the program catches either.
\<close>

record filesystem =
  files :: "string \<Rightarrow> string option"
  write_error :: "string \<Rightarrow> bool"
  read_error :: "string \<Rightarrow> bool"

definition UUID_FILE_DIR :: string where
  "UUID_FILE_DIR = ''/tmp/setup-wg-uuids''"

definition uuid_file_path :: "int \<Rightarrow> string" where
  "uuid_file_path port = UUID_FILE_DIR @ ''/'' @ ''uuids-'' @ str_int port @ ''.txt''"

text \<open>\<open>save_uuids_to_file\<close>, lines 350-359: the failure is caught and logged.\<close>

definition save_uuids_to_file :: "filesystem \<Rightarrow> int \<Rightarrow> string list \<Rightarrow> filesystem" where
  "save_uuids_to_file fs port uuids =
     (let uuid_file = uuid_file_path port in
      if write_error fs uuid_file then fs
      else fs\<lparr>files := (files fs)(uuid_file \<mapsto>
                 concat (map (\<lambda>uuid. uuid @ [CHR 0x0A]) (sort uuids)))\<rparr>)"

text \<open>\<open>load_uuids_from_file\<close>, lines 369-380.\<close>

definition load_uuids_from_file :: "filesystem \<Rightarrow> int \<Rightarrow> string list option" where
  "load_uuids_from_file fs port =
     (let uuid_file = uuid_file_path port in
      case files fs uuid_file of
        None \<Rightarrow> None
      | Some content \<Rightarrow>
          if read_error fs uuid_file then None
          else Some [strip line. line \<leftarrow> read_lines content, strip line \<noteq> []])"

subsection \<open>Change detector\<close>

text \<open>
  The markers the detector keeps: the globals \<open>LAST_UUID_COUNT\<close> and \<open>LAST_UUID_HASH\<close>
  of the process, the content of \<open>UUID_HASH_FILE\<close> (\<open>None\<close> when the file does not
  exist) and the number stored in \<open>UUID_DB_MTIME_FILE\<close> (\<open>None\<close> when the file does
  not exist). A modification time is the number of seconds \<open>os.path.getmtime\<close> returns;
  \<open>str\<close> and \<open>float\<close> are inverse on it, so the file is modelled by the number itself.
\<close>

record sync_state =
  LAST_UUID_COUNT :: "nat option"
  LAST_UUID_HASH :: "string option"
  hash_file :: "string option"
  mtime_file :: "real option"

text \<open>Whether reading or writing a marker file raises; every such failure is caught.\<close>

record marker_io =
  hash_read_error :: bool
  hash_write_error :: bool
  mtime_read_error :: bool
  mtime_write_error :: bool

text \<open>\<open>load_last_uuid_hash\<close>, lines 302-310.\<close>

definition load_last_uuid_hash :: "marker_io \<Rightarrow> sync_state \<Rightarrow> string option" where
  "load_last_uuid_hash io st =
     (case hash_file st of
        None \<Rightarrow> None
      | Some content \<Rightarrow>
          if hash_read_error io then None else Some (strip (universal_newlines content)))"

text \<open>\<open>save_last_uuid_hash\<close>, lines 313-319.\<close>

definition save_last_uuid_hash :: "marker_io \<Rightarrow> sync_state \<Rightarrow> string \<Rightarrow> sync_state" where
  "save_last_uuid_hash io st hash_value =
     (if hash_write_error io then st else st\<lparr>hash_file := Some hash_value\<rparr>)"

text \<open>\<open>load_last_db_mtime\<close>, lines 330-338.\<close>

definition load_last_db_mtime :: "marker_io \<Rightarrow> sync_state \<Rightarrow> real option" where
  "load_last_db_mtime io st =
     (case mtime_file st of
        None \<Rightarrow> None
      | Some m \<Rightarrow> if mtime_read_error io then None else Some m)"

text \<open>\<open>save_last_db_mtime\<close>, lines 341-347.\<close>

definition save_last_db_mtime :: "marker_io \<Rightarrow> sync_state \<Rightarrow> real \<Rightarrow> sync_state" where
  "save_last_db_mtime io st mtime =
     (if mtime_write_error io then st else st\<lparr>mtime_file := Some mtime\<rparr>)"

text \<open>Line 1291: the source counts as changed also when no time has been recorded.\<close>

definition db_file_changed :: "marker_io \<Rightarrow> sync_state \<Rightarrow> real option \<Rightarrow> bool" where
  "db_file_changed io st current_db_mtime =
     (let last_db_mtime = load_last_db_mtime io st
      in last_db_mtime = None \<or> current_db_mtime \<noteq> last_db_mtime)"

text \<open>
  Lines 1307-1313: the earlier hash is the one in process memory, else the one in the
  hash file, where an empty file counts as no hash.
\<close>

definition old_hash :: "marker_io \<Rightarrow> sync_state \<Rightarrow> string option" where
  "old_hash io st =
     (let old_hash_from_file =
            (case load_last_uuid_hash io st of
               None \<Rightarrow> None
             | Some h \<Rightarrow> if h = [] then None else Some h)
      in case LAST_UUID_HASH st of
           Some h \<Rightarrow> Some h
         | None \<Rightarrow> old_hash_from_file)"

text \<open>
  Lines 1289-1328 of \<open>refresh_uuids_for_all_namespaces\<close>: the decision whether the
  proxies are restarted. The inputs are the result of \<open>get_db_mtime\<close> (\<open>None\<close> when
  the call failed), the extracted identifiers and \<open>force_restart\<close>. The result is
  \<open>uuids_changed\<close>, or \<open>None\<close> when the extraction is empty and the function returns
  at line 1301 without deciding. The test \<open>if current_db_mtime:\<close> of line 1320 is
  Python truthiness: false for \<open>None\<close> and for \<open>0.0\<close>.
\<close>

definition refresh_detect_change ::
  "(string \<Rightarrow> string) \<Rightarrow> marker_io \<Rightarrow> sync_state \<Rightarrow> real option \<Rightarrow> string list \<Rightarrow> bool
     \<Rightarrow> bool option \<times> sync_state" where
  "refresh_detect_change md5 io st current_db_mtime uuids force_restart =
     (let db_file_changed = db_file_changed io st current_db_mtime;
          st1 = (if db_file_changed then save_last_uuid_hash io st [] else st)
      in if uuids = [] then (None, st1)
         else
           (let current_uuid_hash = get_uuids_hash md5 uuids;
                old_hash = old_hash io st1;
                st2 = st1\<lparr>LAST_UUID_COUNT := Some (length uuids),
                          LAST_UUID_HASH := Some current_uuid_hash\<rparr>;
                st3 = save_last_uuid_hash io st2 current_uuid_hash;
                st4 = (case current_db_mtime of
                         None \<Rightarrow> st3
                       | Some m \<Rightarrow> if m \<noteq> 0 then save_last_db_mtime io st3 m else st3);
                uuids_changed =
                  (old_hash = None \<or> old_hash \<noteq> Some current_uuid_hash
                   \<or> db_file_changed \<or> force_restart)
            in (Some uuids_changed, st4)))"

text \<open>A fresh host: no process state and no marker files.\<close>

definition initial_sync_state :: sync_state where
  "initial_sync_state =
     \<lparr>LAST_UUID_COUNT = None, LAST_UUID_HASH = None, hash_file = None, mtime_file = None\<rparr>"

definition no_io_errors :: marker_io where
  "no_io_errors =
     \<lparr>hash_read_error = False, hash_write_error = False,
      mtime_read_error = False, mtime_write_error = False\<rparr>"

subsection \<open>Background watcher\<close>

text \<open>
  The exception classes the handlers tell apart: \<open>Exception\<close> stands for any subclass
  of \<open>Exception\<close>, \<open>KeyboardInterrupt\<close> for the interrupt, which is not one.
\<close>

datatype py_exc = Exception | KeyboardInterrupt

datatype outcome = Returned | Raised py_exc

text \<open>Python truthiness of an \<open>Optional[str]\<close>: neither \<open>None\<close> nor empty.\<close>

definition truthy :: "string option \<Rightarrow> bool" where
  "truthy p = (case p of None \<Rightarrow> False | Some s \<Rightarrow> s \<noteq> [])"

text \<open>
  What one tick finds: the credential source's path persisted in the configuration
  or state file, if any; which paths are existing files; an exception raised while
  the source is looked up, before the \<open>try\<close> block; and an exception raised by
  \<open>refresh_uuids_for_all_namespaces\<close> if it is called.
\<close>

record tick =
  persisted_db_path :: "string option"
  db_isfile :: "string \<Rightarrow> bool"
  lookup_raises :: "py_exc option"
  refresh_raises :: "py_exc option"

text \<open>
  \<open>load_panel_state\<close>, lines 569-595, as far as \<open>PANEL_DB_PATH\<close> goes: a persisted
  path replaces the global, otherwise the global stays.
\<close>

definition load_panel_state :: "string option \<Rightarrow> string option \<Rightarrow> string option" where
  "load_panel_state persisted panel_db_path =
     (case persisted of None \<Rightarrow> panel_db_path | Some p \<Rightarrow> Some p)"

record tick_result =
  tr_outcome :: outcome
  tr_panel_db_path :: "string option"
  tr_refresh_called :: bool
  tr_error_logged :: bool

text \<open>\<open>refresh_uuids_for_all_namespaces_noninteractive\<close>, lines 1027-1052.\<close>

definition refresh_uuids_for_all_namespaces_noninteractive ::
  "string option \<Rightarrow> tick \<Rightarrow> tick_result" where
  "refresh_uuids_for_all_namespaces_noninteractive panel_db_path t =
     (let db_path = (if \<not> truthy panel_db_path
                     then load_panel_state (persisted_db_path t) panel_db_path
                     else panel_db_path)
      in case lookup_raises t of
           Some e \<Rightarrow>
             \<lparr>tr_outcome = Raised e, tr_panel_db_path = db_path,
              tr_refresh_called = False, tr_error_logged = False\<rparr>
         | None \<Rightarrow>
             if \<not> truthy db_path \<or> \<not> (case db_path of None \<Rightarrow> False | Some p \<Rightarrow> db_isfile t p)
             then \<lparr>tr_outcome = Returned, tr_panel_db_path = db_path,
                   tr_refresh_called = False, tr_error_logged = False\<rparr>
             else (case refresh_raises t of
                     None \<Rightarrow>
                       \<lparr>tr_outcome = Returned, tr_panel_db_path = db_path,
                        tr_refresh_called = True, tr_error_logged = False\<rparr>
                   | Some Exception \<Rightarrow>
                       \<lparr>tr_outcome = Returned, tr_panel_db_path = db_path,
                        tr_refresh_called = True, tr_error_logged = True\<rparr>
                   | Some KeyboardInterrupt \<Rightarrow>
                       \<lparr>tr_outcome = Raised KeyboardInterrupt, tr_panel_db_path = db_path,
                        tr_refresh_called = True, tr_error_logged = False\<rparr>))"

text \<open>
  The state of \<open>_loop\<close> in \<open>start_uuid_watcher\<close>: its counter, the global path, the
  durations it has slept (oldest first), how many refreshes it has started and how
  many error lines it or the wrapper has logged.
\<close>

record watcher =
  consecutive_errors :: nat
  panel_db_path :: "string option"
  slept :: "int list"
  refreshes :: nat
  errors_logged :: nat

datatype loop_status = Running | Stopped | Died

text \<open>
  \<open>time.sleep\<close> at lines 1094, 1097 and 1101: it raises \<open>ValueError\<close> for a negative
  duration (\<open>None\<close>), otherwise the duration is recorded. The interval comes from the
  configuration file unvalidated (lines 1193-1194); the model takes it to be an
  integer.
\<close>

definition sleep :: "int \<Rightarrow> watcher \<Rightarrow> watcher option" where
  "sleep seconds w = (if seconds < 0 then None else Some (w\<lparr>slept := slept w @ [seconds]\<rparr>))"

text \<open>
  \<open>_loop\<close>, lines 1071-1101. The loop is \<open>while True\<close>; the model runs it over the
  ticks of a finite prefix of its execution, one list element per iteration, and
  reports \<open>Running\<close> when the prefix is used up with the loop still going,
  \<open>Stopped\<close> when the loop has left through \<open>break\<close>, and \<open>Died\<close> when an exception
  raised outside the \<open>try\<close> block, by one of the sleeps, has ended the thread.
\<close>

fun watcher_loop :: "int \<Rightarrow> watcher \<Rightarrow> tick list \<Rightarrow> loop_status \<times> watcher" where
  "watcher_loop interval_seconds w [] = (Running, w)"
| "watcher_loop interval_seconds w (t # ts) =
     (let max_consecutive_errors = 10;
          r = refresh_uuids_for_all_namespaces_noninteractive (panel_db_path w) t;
          w1 = w\<lparr>panel_db_path := tr_panel_db_path r,
                 refreshes := refreshes w + (if tr_refresh_called r then 1 else 0),
                 errors_logged := errors_logged w + (if tr_error_logged r then 1 else 0)\<rparr>
      in case tr_outcome r of
           Returned \<Rightarrow>
             (let w2 = w1\<lparr>consecutive_errors := 0\<rparr>
              in case sleep interval_seconds w2 of
                   None \<Rightarrow> (Died, w2)
                 | Some w3 \<Rightarrow> watcher_loop interval_seconds w3 ts)
         | Raised KeyboardInterrupt \<Rightarrow>
             (Stopped, w1)
         | Raised Exception \<Rightarrow>
             (let c = consecutive_errors w1 + 1;
                  w2 = w1\<lparr>consecutive_errors := c, errors_logged := errors_logged w1 + 1\<rparr>
              in if c \<ge> max_consecutive_errors
                 then (case sleep (interval_seconds * 2) w2 of
                         None \<Rightarrow> (Died, w2)
                       | Some w3 \<Rightarrow>
                           watcher_loop interval_seconds (w3\<lparr>consecutive_errors := 0\<rparr>) ts)
                 else (case sleep interval_seconds w2 of
                         None \<Rightarrow> (Died, w2)
                       | Some w3 \<Rightarrow> watcher_loop interval_seconds w3 ts)))"

text \<open>
  Sample inputs: a watcher that has just started, one whose credential source is
  configured, and three kinds of tick.
\<close>

definition watcher_start :: watcher where
  "watcher_start =
     \<lparr>consecutive_errors = 0, panel_db_path = None, slept = [], refreshes = 0,
      errors_logged = 0\<rparr>"

definition watcher_configured :: watcher where
  "watcher_configured = watcher_start\<lparr>panel_db_path := Some ''/etc/x-ui/x-ui.db''\<rparr>"

definition always_file :: "string \<Rightarrow> bool" where
  "always_file p = True"

definition tick_unconfigured :: tick where
  "tick_unconfigured =
     \<lparr>persisted_db_path = None, db_isfile = always_file, lookup_raises = None,
      refresh_raises = None\<rparr>"

definition tick_refresh_error :: tick where
  "tick_refresh_error =
     \<lparr>persisted_db_path = None, db_isfile = always_file, lookup_raises = None,
      refresh_raises = Some Exception\<rparr>"

definition tick_lookup_error :: tick where
  "tick_lookup_error =
     \<lparr>persisted_db_path = None, db_isfile = always_file, lookup_raises = Some Exception,
      refresh_raises = None\<rparr>"

subsection \<open>Credential source adapter\<close>

text \<open>The values a SQLite column can hold, as \<open>sqlite3\<close> hands them to Python.\<close>

datatype sql_value = SqlNull | SqlInt int | SqlReal real | SqlText string | SqlBlob string

text \<open>Python truthiness of such a value.\<close>

fun sql_truthy :: "sql_value \<Rightarrow> bool" where
  "sql_truthy SqlNull = False"
| "sql_truthy (SqlInt i) = (i \<noteq> 0)"
| "sql_truthy (SqlReal r) = (r \<noteq> 0)"
| "sql_truthy (SqlText s) = (s \<noteq> [])"
| "sql_truthy (SqlBlob b) = (b \<noteq> [])"

text \<open>
  What \<open>json.loads\<close> returns; an object is the Python \<open>dict\<close>, listed as key-value
  pairs with distinct keys.
\<close>

datatype json = JNull | JBool bool | JNum real | JStr string | JArr "json list"
  | JObj "(string \<times> json) list"

text \<open>
  What \<open>json.loads\<close> does with a text: it returns a value, or raises
  \<open>JSONDecodeError\<close>, which line 1632 catches, or raises another exception
  (\<open>ValueError\<close> for an integer of more than 4300 digits, \<open>RecursionError\<close> for
  deep nesting), which line 1632 does not catch.
\<close>

datatype loads_result = Parsed json | JSONDecodeError | OtherError

text \<open>
  The result of a query read with \<open>fetchall\<close>: \<open>sqlite3.Error\<close> raised, or the
  result. The result of iterating over a cursor: the rows it yields, and whether
  the iteration then ends or raises \<open>sqlite3.Error\<close>.
\<close>

datatype 'a query = SqliteError | Result 'a

datatype 'a cursor = Rows "'a list" | RowsThenError "'a list"

text \<open>The rows a cursor yields before its iteration ends.\<close>

fun yielded :: "'a cursor \<Rightarrow> 'a list" where
  "yielded (Rows rows) = rows"
| "yielded (RowsThenError rows) = rows"

text \<open>
  The credential database as \<open>extract_uuids_from_sqlite\<close> sees it: whether the path
  is a file, the table names from \<open>sqlite_master\<close> (\<open>SqliteError\<close> there also stands
  for a \<open>connect\<close> that raises it), the column names and rows of the
  two tables it knows (for \<open>proxies\<close> the pairs \<open>(settings, user_id)\<close> of the rows with
  type VLESS, for \<open>users\<close> the \<open>uuid\<close> column), and what the raw scan of the file's
  bytes, \<open>_extract_uuids_raw_file\<close>, returns.
\<close>

record database =
  db_is_file :: bool
  db_tables :: "string list query"
  db_proxies_cols :: "string list query"
  db_proxies_rows :: "(sql_value \<times> sql_value) cursor"
  db_users_cols :: "string list query"
  db_users_rows :: "sql_value cursor"
  db_raw_scan :: "string list"

text \<open>
  Lines 1624-1634, what one \<open>proxies\<close> row does. The parameter \<open>loads\<close> stands for
  \<open>json.loads\<close>. \<open>Inr (Some u)\<close> appends \<open>u\<close>, \<open>Inr None\<close> appends nothing, and
  \<open>Inl Exception\<close> is an exception that leaves the loop and the function.
\<close>

definition proxy_uuid ::
  "(string \<Rightarrow> loads_result) \<Rightarrow> sql_value \<times> sql_value \<Rightarrow> py_exc + string option" where
  "proxy_uuid loads row =
     (case row of (settings_json, user_id) \<Rightarrow>
        if sql_truthy settings_json \<and> sql_truthy user_id
        then (case settings_json of
                SqlText s \<Rightarrow>
                  (case loads s of
                     Parsed (JObj settings) \<Rightarrow>
                       (case map_of settings ''id'' of
                          Some (JStr uuid_val) \<Rightarrow>
                            if strip uuid_val \<noteq> [] then Inr (Some (strip uuid_val))
                            else Inr None
                        | _ \<Rightarrow> Inr None)
                   | Parsed _ \<Rightarrow> Inr None
                   | JSONDecodeError \<Rightarrow> Inr None
                   | OtherError \<Rightarrow> Inl Exception)
              | _ \<Rightarrow> Inr None)
        else Inr None)"

text \<open>Lines 1622-1631: every identifier found is appended, repeated or not.\<close>

fun proxies_loop ::
  "(string \<Rightarrow> loads_result) \<Rightarrow> string list \<Rightarrow> (sql_value \<times> sql_value) list
     \<Rightarrow> py_exc + string list" where
  "proxies_loop loads uuids [] = Inr uuids"
| "proxies_loop loads uuids (row # rows) =
     (case proxy_uuid loads row of
        Inl e \<Rightarrow> Inl e
      | Inr (Some u) \<Rightarrow> proxies_loop loads (uuids @ [u]) rows
      | Inr None \<Rightarrow> proxies_loop loads uuids rows)"

text \<open>Lines 1648-1653: a value is appended only when it is not in the list yet.\<close>

fun users_loop :: "string list \<Rightarrow> sql_value list \<Rightarrow> string list" where
  "users_loop uuids [] = uuids"
| "users_loop uuids (val # rows) =
     (case val of
        SqlText s \<Rightarrow>
          (let v = strip s
           in if v \<noteq> [] \<and> v \<notin> set uuids then users_loop (uuids @ [v]) rows
              else users_loop uuids rows)
      | _ \<Rightarrow> users_loop uuids rows)"

text \<open>
  Lines 1612-1656, the two stages of the structured extraction. A stage ends with
  the list it has built, or with \<open>sqlite3.Error\<close> raised and the list as it stands
  then (the identifiers of the rows read before the error stay appended), or with
  an exception that nothing in the function catches.
\<close>

datatype stage = StageDone "string list" | StageSqliteError "string list" | StageRaised

definition proxies_stage ::
  "(string \<Rightarrow> loads_result) \<Rightarrow> database \<Rightarrow> string list \<Rightarrow> string list \<Rightarrow> stage" where
  "proxies_stage loads db tables uuids =
     (if ''proxies'' \<in> set tables
      then (case db_proxies_cols db of
              SqliteError \<Rightarrow> StageSqliteError uuids
            | Result cols \<Rightarrow>
                if ''settings'' \<in> set cols \<and> ''user_id'' \<in> set cols
                then (case db_proxies_rows db of
                        Rows rows \<Rightarrow>
                          (case proxies_loop loads uuids rows of
                             Inl e \<Rightarrow> StageRaised
                           | Inr uuids' \<Rightarrow> StageDone uuids')
                      | RowsThenError rows \<Rightarrow>
                          (case proxies_loop loads uuids rows of
                             Inl e \<Rightarrow> StageRaised
                           | Inr uuids' \<Rightarrow> StageSqliteError uuids'))
                else StageDone uuids)
      else StageDone uuids)"

definition users_stage :: "database \<Rightarrow> string list \<Rightarrow> string list \<Rightarrow> stage" where
  "users_stage db tables uuids =
     (if ''users'' \<in> set tables
      then (case db_users_cols db of
              SqliteError \<Rightarrow> StageSqliteError uuids
            | Result cols \<Rightarrow>
                if ''uuid'' \<in> set cols
                then (case db_users_rows db of
                        Rows rows \<Rightarrow> StageDone (users_loop uuids rows)
                      | RowsThenError rows \<Rightarrow> StageSqliteError (users_loop uuids rows))
                else StageDone uuids)
      else StageDone uuids)"

text \<open>
  \<open>extract_uuids_from_sqlite\<close>, lines 1586-1673. \<open>Inr\<close> is the returned list, \<open>Inl\<close>
  an exception that leaves the function. A \<open>sqlite3.Error\<close> is caught at line
  1661 and ends the structured extraction; an empty list falls back to the raw scan.
\<close>

definition extract_uuids_from_sqlite ::
  "(string \<Rightarrow> loads_result) \<Rightarrow> database \<Rightarrow> py_exc + string list" where
  "extract_uuids_from_sqlite loads db =
     (if \<not> db_is_file db then Inr []
      else
        (let fallback = (\<lambda>uuids. if uuids = [] then db_raw_scan db else uuids)
         in case db_tables db of
              SqliteError \<Rightarrow> Inr (fallback [])
            | Result tables \<Rightarrow>
                (case proxies_stage loads db tables [] of
                   StageRaised \<Rightarrow> Inl Exception
                 | StageSqliteError uuids \<Rightarrow> Inr (fallback uuids)
                 | StageDone uuids \<Rightarrow>
                     (case users_stage db tables uuids of
                        StageRaised \<Rightarrow> Inl Exception
                      | StageSqliteError uuids' \<Rightarrow> Inr (fallback uuids')
                      | StageDone uuids' \<Rightarrow> Inr (fallback uuids')))))"

text \<open>
  The identifiers the rows of \<open>proxies\<close> yield, in row order, for stating what the
  extraction returns.
\<close>

definition proxies_ids ::
  "(string \<Rightarrow> loads_result) \<Rightarrow> (sql_value \<times> sql_value) list \<Rightarrow> string list" where
  "proxies_ids loads rows =
     List.map_filter
       (\<lambda>row. case proxy_uuid loads row of Inr (Some u) \<Rightarrow> Some u | _ \<Rightarrow> None) rows"

text \<open>
  Sample inputs: a stand-in for \<open>json.loads\<close> that agrees with it on the one
  settings text used below, the object with the identifier \<open>a\<close>; a database where
  \<open>a\<close> is in both tables; and one where \<open>a\<close> is in two rows of \<open>proxies\<close>.
\<close>

definition settings_a :: string where
  "settings_a = ''{'' @ [CHR 0x22] @ ''id'' @ [CHR 0x22] @ '': '' @ [CHR 0x22] @ ''a''
                  @ [CHR 0x22] @ ''}''"

definition sample_loads :: "string \<Rightarrow> loads_result" where
  "sample_loads s =
     (if s = settings_a then Parsed (JObj [(''id'', JStr ''a'')]) else JSONDecodeError)"

definition db_both_tables :: database where
  "db_both_tables =
     \<lparr>db_is_file = True,
      db_tables = Result [''proxies'', ''users''],
      db_proxies_cols = Result [''id'', ''user_id'', ''type'', ''settings''],
      db_proxies_rows = Rows [(SqlText settings_a, SqlInt 1)],
      db_users_cols = Result [''id'', ''uuid''],
      db_users_rows = Rows [SqlText ''a''],
      db_raw_scan = []\<rparr>"

definition db_same_table_twice :: database where
  "db_same_table_twice =
     \<lparr>db_is_file = True,
      db_tables = Result [''proxies'', ''users''],
      db_proxies_cols = Result [''id'', ''user_id'', ''type'', ''settings''],
      db_proxies_rows = Rows [(SqlText settings_a, SqlInt 1), (SqlText settings_a, SqlInt 2)],
      db_users_cols = Result [''id'', ''uuid''],
      db_users_rows = Rows [SqlText ''b''],
      db_raw_scan = []\<rparr>"

subsection \<open>The host: commands, environment and state\<close>

text \<open>
  \<open>shlex.quote\<close>: a non-empty string of letters, digits and \<open>_@%+=:,./-\<close> is left as
  it is; any other string is wrapped in single quotes, each single quote inside
  written as \<open>'"'"'\<close>.
\<close>

definition shell_safe :: "char \<Rightarrow> bool" where
  "shell_safe c =
     (c \<in> set ''abcdefghijklmnopqrstuvwxyzABCDEFGHIJKLMNOPQRSTUVWXYZ0123456789_@%+=:,./-'')"

definition shlex_quote :: "string \<Rightarrow> string" where
  "shlex_quote s =
     (if s = [] then [CHR 0x27, CHR 0x27]
      else if list_all shell_safe s then s
      else CHR 0x27
           # concat (map (\<lambda>c. if c = CHR 0x27
                               then [CHR 0x27, CHR 0x22, CHR 0x27, CHR 0x22, CHR 0x27]
                               else [c]) s)
           @ [CHR 0x27])"

text \<open>
  A command handed to \<open>run_cmd\<close>. The commands that list, create or delete a
  namespace or a link, and the one command that configures the tunnel interface,
  have a constructor of their own, holding the names:
  \<^item> \<open>NetnsList\<close>: \<open>ip netns list 2>/dev/null | awk '{print $1}'\<close>;
  \<^item> \<open>NetnsAdd ns\<close>: \<open>ip netns add ns\<close>;
  \<^item> \<open>NetnsDelete ns\<close>: \<open>ip netns delete ns 2>/dev/null || true\<close>;
  \<^item> \<open>LinkAddVeth h p\<close>: \<open>ip link add h type veth peer name p\<close>;
  \<^item> \<open>LinkAddWireguard w\<close>: \<open>ip link add w type wireguard\<close>;
  \<^item> \<open>LinkDelete l\<close>: \<open>ip link delete l 2>/dev/null || true\<close>;
  \<^item> \<open>WgSetconf conf w\<close>: \<open>grep -vE '^(Address|DNS|Table|MTU|PreUp|PostUp|PreDown|PostDown)' conf | wg setconf w /dev/stdin\<close>.
  Every other command is \<open>Sh ns text\<close>: its text, and the namespace of the \<open>ns=\<close>
  argument if there is one.
\<close>

datatype cmd =
    NetnsList
  | NetnsAdd string
  | NetnsDelete string
  | LinkAddVeth string string
  | LinkAddWireguard string
  | LinkDelete string
  | WgSetconf string string
  | Sh "string option" string

text \<open>The resources a tunnel is made of, and the commands that make and remove them.\<close>

datatype resource = Namespace string | Link string

fun creates :: "cmd \<Rightarrow> resource option" where
  "creates (NetnsAdd ns) = Some (Namespace ns)"
| "creates (LinkAddVeth h p) = Some (Link h)"
| "creates (LinkAddWireguard w) = Some (Link w)"
| "creates _ = None"

fun deletes :: "cmd \<Rightarrow> resource option" where
  "deletes (NetnsDelete ns) = Some (Namespace ns)"
| "deletes (LinkDelete l) = Some (Link l)"
| "deletes _ = None"


text \<open>
  Everything the program asks of its surroundings, as a function of the commands
  run so far where the answer can change:
  \<^item> \<open>rc_ok hist c\<close>: command \<open>c\<close>, run after the commands \<open>hist\<close>, returns code 0;
  \<^item> \<open>netns_list hist\<close>: the words \<open>NetnsList\<close> prints after \<open>hist\<close>;
  \<^item> \<open>resolve_endpoint_ip conf\<close>: the function of that name, lines 1952-1983;
  \<^item> \<open>wg_suffix port\<close>: what follows \<open>wg-\<close> in the tunnel interface's name, computed
    at lines 2268-2276 from \<open>md5sum\<close>, \<open>md5\<close> or the port;
  \<^item> \<open>wg_address conf\<close>: the \<open>Address\<close> read from the tunnel configuration at lines
    2278-2283, or \<open>None\<close> when reading it raises;
  \<^item> \<open>is_file p\<close>: \<open>os.path.isfile(p)\<close> for a path outside the state directory;
  \<^item> \<open>fs_error p\<close>: reading, writing or removing \<open>p\<close> raises \<open>OSError\<close>;
  \<^item> \<open>xray_binary_ok\<close>: the result of \<open>ensure_xray_binary()\<close>;
  \<^item> \<open>persisted_panel_db\<close>: the credential source's path that \<open>load_panel_state\<close>
    finds in the configuration or state file, if any;
  \<^item> \<open>detected_tunnels\<close>: the result of \<open>detect_existing_tunnels()\<close>.
\<close>

record env =
  rc_ok :: "cmd list \<Rightarrow> cmd \<Rightarrow> bool"
  netns_list :: "cmd list \<Rightarrow> string list"
  resolve_endpoint_ip :: "string \<Rightarrow> string \<times> string"
  wg_suffix :: "int \<Rightarrow> string"
  wg_address :: "string \<Rightarrow> string option"
  is_file :: "string \<Rightarrow> bool"
  fs_error :: "string \<Rightarrow> bool"
  xray_binary_ok :: bool
  persisted_panel_db :: "string option"
  detected_tunnels :: "(int \<times> string) list"

text \<open>
  The state the program changes: the commands it has run (oldest first), the files
  of \<open>SETUP_STATE_DIR\<close> by name, the namespaces whose \<open>resolv.conf\<close> it has written,
  the global \<open>PANEL_DB_PATH\<close>, and the calls of \<open>refresh_uuids_for_all_namespaces\<close>
  it has made, each with its \<open>interactive\<close> and \<open>force_restart\<close> arguments. The
  commands a refresh runs itself are not recorded.
\<close>

record host =
  trace :: "cmd list"
  state_dir :: "(string \<times> string) list"
  resolv_conf :: "string list"
  PANEL_DB_PATH :: "string option"
  refresh_calls :: "(bool \<times> bool) list"

text \<open>\<open>run_cmd\<close>: the command is run and its return code reported.\<close>

definition run_cmd :: "env \<Rightarrow> host \<Rightarrow> cmd \<Rightarrow> bool \<times> host" where
  "run_cmd e h c = (rc_ok e (trace h) c, h\<lparr>trace := trace h @ [c]\<rparr>)"

text \<open>A run of commands whose return codes the program does not look at.\<close>

definition run_cmds :: "host \<Rightarrow> cmd list \<Rightarrow> host" where
  "run_cmds h cs = h\<lparr>trace := trace h @ cs\<rparr>"


text \<open>
  A call of \<open>refresh_uuids_for_all_namespaces(interactive=False, ...)\<close>, as far as
  this state goes: the call is recorded, and when no credential source is set or
  its file is missing the function loads the persisted one (lines 1271-1282).
\<close>

definition call_refresh :: "env \<Rightarrow> host \<Rightarrow> bool \<Rightarrow> host" where
  "call_refresh e h force_restart =
     (let missing = (case PANEL_DB_PATH h of
                       None \<Rightarrow> True
                     | Some p \<Rightarrow> p = [] \<or> \<not> is_file e p)
      in h\<lparr>refresh_calls := refresh_calls h @ [(False, force_restart)],
           PANEL_DB_PATH := (if missing
                             then load_panel_state (persisted_panel_db e) (PANEL_DB_PATH h)
                             else PANEL_DB_PATH h)\<rparr>)"

subsection \<open>Tunnel state store\<close>

text \<open>\<open>int(s)\<close> on a stripped string: an optional sign, then decimal digits, where
  single underscores may stand between digits. \<open>None\<close> is \<open>ValueError\<close>.\<close>

definition is_digit :: "char \<Rightarrow> bool" where
  "is_digit c = (c \<in> set ''0123456789'')"

definition digit_val :: "char \<Rightarrow> nat" where
  "digit_val c = of_char c - 48"

fun digits_ok :: "bool \<Rightarrow> string \<Rightarrow> bool" where
  "digits_ok prev [] = prev"
| "digits_ok prev (c # cs) =
     (if is_digit c then digits_ok True cs
      else if c = CHR ''_'' \<and> prev then digits_ok False cs
      else False)"

definition digits_value :: "string \<Rightarrow> nat" where
  "digits_value s = foldl (\<lambda>a c. 10 * a + digit_val c) 0 (filter is_digit s)"

definition parse_nat :: "string \<Rightarrow> nat option" where
  "parse_nat s = (if digits_ok False s then Some (digits_value s) else None)"

definition parse_int :: "string \<Rightarrow> int option" where
  "parse_int s =
     (case s of
        [] \<Rightarrow> None
      | c # cs \<Rightarrow>
          if c = CHR ''-'' then map_option (\<lambda>n. - int n) (parse_nat cs)
          else if c = CHR ''+'' then map_option int (parse_nat cs)
          else map_option int (parse_nat s))"

text \<open>\<open>str.startswith\<close> and \<open>str.endswith\<close>.\<close>

definition startswith :: "string \<Rightarrow> string \<Rightarrow> bool" where
  "startswith s p = (take (length p) s = p)"

definition endswith :: "string \<Rightarrow> string \<Rightarrow> bool" where
  "endswith s p = (length p \<le> length s \<and> drop (length s - length p) s = p)"

definition SETUP_STATE_DIR :: string where
  "SETUP_STATE_DIR = ''/etc/setup-wg''"

definition state_file_name :: "int \<Rightarrow> string" where
  "state_file_name port = ''tunnel-'' @ str_int port @ ''.state''"

definition state_file_path :: "string \<Rightarrow> string" where
  "state_file_path name = SETUP_STATE_DIR @ ''/'' @ name"

text \<open>\<open>save_setup_state\<close>, lines 614-623.\<close>

definition save_setup_state :: "env \<Rightarrow> host \<Rightarrow> int \<Rightarrow> string \<Rightarrow> host" where
  "save_setup_state e h port wg_config_path =
     (let state_file = state_file_name port in
      if fs_error e (state_file_path state_file) then h
      else h\<lparr>state_dir :=
               AList.update state_file
                 (str_int port @ [CHR 0x0A] @ wg_config_path @ [CHR 0x0A]) (state_dir h)\<rparr>)"

text \<open>\<open>delete_setup_state\<close>, lines 626-634.\<close>

definition delete_setup_state :: "env \<Rightarrow> host \<Rightarrow> int \<Rightarrow> host" where
  "delete_setup_state e h port =
     (let state_file = state_file_name port in
      if map_of (state_dir h) state_file \<noteq> None
      then (if fs_error e (state_file_path state_file) then h
            else h\<lparr>state_dir := AList.delete state_file (state_dir h)\<rparr>)
      else h)"

text \<open>
  Lines 653-657: what a state file holds, when it has two non-blank lines and the
  first is an integer. \<open>Inl ()\<close> is the \<open>ValueError\<close> of \<open>int\<close>; \<open>Inr None\<close> is a
  file with fewer than two lines.
\<close>

definition parse_state :: "string \<Rightarrow> unit + (int \<times> string) option" where
  "parse_state content =
     (let lines = [strip line. line \<leftarrow> read_lines content, strip line \<noteq> []] in
      case lines of
        l0 # l1 # _ \<Rightarrow>
          (case parse_int l0 of
             None \<Rightarrow> Inl ()
           | Some port \<Rightarrow> Inr (Some (port, l1)))
      | _ \<Rightarrow> Inr None)"

text \<open>
  Lines 649-664: what the loop of \<open>load_all_setup_states\<close> does with one file of
  the directory listing. A file of another name, a file that cannot be read, a
  file with fewer than two lines or with a first line that is no integer is
  skipped; a record whose configuration file exists is kept; a record whose
  configuration file is gone is removed.
\<close>

datatype file_action = Skip | Keep "int \<times> string" | Remove

definition load_state_file :: "env \<Rightarrow> string \<Rightarrow> string \<Rightarrow> file_action" where
  "load_state_file e filename content =
     (if \<not> startswith filename ''tunnel-'' \<or> \<not> endswith filename ''.state'' then Skip
      else if fs_error e (state_file_path filename) then Skip
      else (case parse_state content of
              Inr (Some (port, wg_config_path)) \<Rightarrow>
                if is_file e wg_config_path then Keep (port, wg_config_path) else Remove
            | _ \<Rightarrow> Skip))"

text \<open>\<open>load_all_setup_states\<close>, lines 637-668: the loop over the directory listing.\<close>

fun load_states_loop ::
  "env \<Rightarrow> host \<Rightarrow> (int \<times> string) list \<Rightarrow> (string \<times> string) list
     \<Rightarrow> (int \<times> string) list \<times> host" where
  "load_states_loop e h tunnels [] = (tunnels, h)"
| "load_states_loop e h tunnels ((filename, content) # rest) =
     (case load_state_file e filename content of
        Skip \<Rightarrow> load_states_loop e h tunnels rest
      | Keep tunnel \<Rightarrow> load_states_loop e h (tunnels @ [tunnel]) rest
      | Remove \<Rightarrow>
          load_states_loop e (h\<lparr>state_dir := AList.delete filename (state_dir h)\<rparr>)
            tunnels rest)"

definition load_all_setup_states :: "env \<Rightarrow> host \<Rightarrow> (int \<times> string) list \<times> host" where
  "load_all_setup_states e h = load_states_loop e h [] (state_dir h)"

text \<open>
  A state directory as \<open>save_setup_state\<close> leaves it: a file that holds a record
  for port \<open>k\<close> is the file named after \<open>k\<close>.
\<close>

definition store_wf :: "(string \<times> string) list \<Rightarrow> bool" where
  "store_wf dir =
     list_all (\<lambda>(name, content).
        case parse_state content of
          Inr (Some (port, wg_config_path)) \<Rightarrow> name = state_file_name port
        | _ \<Rightarrow> True) dir"

subsection \<open>Namespace provisioner\<close>

text \<open>The iptables command texts that create, restore and delete share.\<close>

definition quiet :: "string \<Rightarrow> string" where
  "quiet c = c @ '' 2>/dev/null || true''"

definition ipt_dnat :: "string \<Rightarrow> string \<Rightarrow> int \<Rightarrow> string \<Rightarrow> string" where
  "ipt_dnat action proto port ns_ip =
     ''iptables -t nat '' @ action @ '' PREROUTING -p '' @ proto @ '' --dport '' @ str_int port
       @ '' -j DNAT --to-destination '' @ ns_ip @ '':'' @ str_int port"

definition ipt_masquerade :: "string \<Rightarrow> string \<Rightarrow> string \<Rightarrow> string" where
  "ipt_masquerade action subnet veth_host =
     ''iptables -t nat '' @ action @ '' POSTROUTING -s '' @ subnet @ '' ! -o '' @ veth_host
       @ '' -j MASQUERADE''"

definition ipt_forward_in :: "string \<Rightarrow> string \<Rightarrow> string \<Rightarrow> int \<Rightarrow> string" where
  "ipt_forward_in action proto ns_ip port =
     ''iptables '' @ action @ '' -p '' @ proto @ '' -d '' @ ns_ip @ ''/32 --dport ''
       @ str_int port @ '' -j ACCEPT''"

definition ipt_forward_out :: "string \<Rightarrow> string \<Rightarrow> string \<Rightarrow> string" where
  "ipt_forward_out action proto ns_ip =
     ''iptables '' @ action @ '' -p '' @ proto @ '' -s '' @ ns_ip @ ''/32 -j ACCEPT''"


text \<open>Lines 2245-2264 and 719-727: addresses of the link pair.\<close>

definition veth_config_cmds :: "topology \<Rightarrow> cmd list" where
  "veth_config_cmds t =
     (let ns = Some (t_ns_name t);
          veth_host = shlex_quote (t_veth_host t);
          veth_ns = shlex_quote (t_veth_ns t)
      in [Sh None (''ip link set '' @ veth_host @ '' up''),
          Sh None (quiet (''ip addr flush dev '' @ veth_host)),
          Sh None (''ip addr add '' @ t_host_ip t @ ''/24 dev '' @ veth_host),
          Sh None (''ip link set '' @ veth_ns @ '' netns '' @ shlex_quote (t_ns_name t)),
          Sh ns ''ip link set lo up'',
          Sh ns (''ip link set '' @ veth_ns @ '' up''),
          Sh ns (quiet (''ip addr flush dev '' @ veth_ns)),
          Sh ns (''ip addr add '' @ t_ns_ip t @ ''/24 dev '' @ veth_ns)])"

text \<open>Lines 2285-2290 and 747-748: removal of a tunnel interface of the same name.\<close>

definition wg_cleanup_cmds :: "topology \<Rightarrow> string \<Rightarrow> cmd list" where
  "wg_cleanup_cmds t wg_name =
     [Sh None (quiet (''ip netns exec '' @ shlex_quote (t_ns_name t) @ '' ip link delete ''
                       @ shlex_quote wg_name)),
      LinkDelete wg_name]"

text \<open>Lines 2316-2355 and 768-784: the tunnel interface moves in; policy routing.\<close>

definition wg_attach_cmds :: "topology \<Rightarrow> string \<Rightarrow> string \<Rightarrow> cmd list" where
  "wg_attach_cmds t wg_name wg_addr =
     (let ns = Some (t_ns_name t)
      in [Sh None (''ip link set '' @ shlex_quote wg_name @ '' netns ''
                    @ shlex_quote (t_ns_name t)),
          Sh ns (''ip addr add '' @ wg_addr @ '' dev '' @ shlex_quote wg_name),
          Sh ns (''ip link set '' @ shlex_quote wg_name @ '' up'')])"

definition routing_cmds :: "topology \<Rightarrow> string \<Rightarrow> string \<Rightarrow> cmd list" where
  "routing_cmds t wg_name endpoint_ip =
     (let ns = Some (t_ns_name t);
          veth_ns = shlex_quote (t_veth_ns t)
      in [Sh ns (quiet ''ip route flush table main''),
          Sh ns (quiet ''ip route flush table 100''),
          Sh ns (''ip route add 10.100.'' @ str_int (t_subnet_octet t) @ ''.0/24 dev '' @ veth_ns
                  @ '' proto kernel scope link src '' @ t_ns_ip t),
          Sh ns (''ip route add '' @ endpoint_ip @ ''/32 via '' @ t_host_ip t),
          Sh ns (''ip route add default dev '' @ shlex_quote wg_name),
          Sh ns (''ip route add default via '' @ t_host_ip t @ '' dev '' @ veth_ns
                  @ '' table 100''),
          Sh ns ''ip rule add fwmark 1 lookup 100'',
          Sh ns (''iptables -t mangle -A OUTPUT -m conntrack --ctstate ESTABLISHED,RELATED -s ''
                  @ t_ns_ip t @ '' -j MARK --set-mark 1'')])"

text \<open>Lines 2357-2398 and 786-799: forwarding, masquerade, destination NAT.\<close>

definition nat_cmds :: "topology \<Rightarrow> string \<Rightarrow> cmd list" where
  "nat_cmds t wg_name =
     [Sh None ''sysctl -w net.ipv4.ip_forward=1 >/dev/null'',
      Sh (Some (t_ns_name t))
         (''iptables -t nat -A POSTROUTING -o '' @ shlex_quote wg_name @ '' -j MASQUERADE''),
      Sh None (quiet (ipt_masquerade ''-D'' (t_subnet t) (t_veth_host t))),
      Sh None (ipt_masquerade ''-A'' (t_subnet t) (t_veth_host t))]"

definition dnat_forward_cmds :: "topology \<Rightarrow> int \<Rightarrow> cmd list" where
  "dnat_forward_cmds t port =
     concat (map (\<lambda>proto.
       [Sh None (quiet (ipt_dnat ''-D'' proto port (t_ns_ip t))),
        Sh None (ipt_dnat ''-A'' proto port (t_ns_ip t)),
        Sh None (quiet (ipt_forward_in ''-D FORWARD'' proto (t_ns_ip t) port)),
        Sh None (ipt_forward_in ''-I FORWARD 1'' proto (t_ns_ip t) port),
        Sh None (quiet (ipt_forward_out ''-D FORWARD'' proto (t_ns_ip t))),
        Sh None (ipt_forward_out ''-I FORWARD 1'' proto (t_ns_ip t))])
       [''tcp'', ''udp''])"

text \<open>
  Lines 2400-2404 and 801-805: the namespace's \<open>resolv.conf\<close>. \<open>None\<close> is the
  \<open>OSError\<close> of \<open>makedirs\<close> or \<open>open\<close>, which nothing catches here.
\<close>

definition write_resolv_conf :: "env \<Rightarrow> host \<Rightarrow> string \<Rightarrow> host option" where
  "write_resolv_conf e h ns_name =
     (if fs_error e (''/etc/netns/'' @ ns_name @ ''/resolv.conf'') then None
      else Some (h\<lparr>resolv_conf := resolv_conf h @ [ns_name]\<rparr>))"




text \<open>
  \<open>restore_setup\<close>, lines 671-813. \<open>Inr b\<close> is the returned boolean, \<open>Inl Exception\<close>
  an exception that leaves the function.
\<close>

definition restore_setup :: "env \<Rightarrow> host \<Rightarrow> int \<Rightarrow> string \<Rightarrow> (py_exc + bool) \<times> host" where
  "restore_setup e h port wg_config_path =
     (let t = restore_topology port;
          ns_name = t_ns_name t;
          veth_host = t_veth_host t;
          veth_ns = t_veth_ns t;
          ns_list = netns_list e (trace h);
          h0 = snd (run_cmd e h NetnsList)
      in if ns_name \<in> set ns_list then (Inr True, h0)
         else
          (let (endpoint_host, endpoint_ip) = resolve_endpoint_ip e wg_config_path
           in if endpoint_ip = [] then (Inr False, h0)
              else
               (let (ok1, h1) = run_cmd e h0 (NetnsAdd ns_name)
                in if \<not> ok1 then (Inr False, h1)
                   else
                    (let (ok2, h2) = run_cmd e (run_cmds h1 [LinkDelete veth_host])
                                       (LinkAddVeth veth_host veth_ns)
                     in if \<not> ok2 then (Inr False, run_cmds h2 [NetnsDelete ns_name])
                        else
                         (let h3 = run_cmds h2 (veth_config_cmds t);
                              wg_name = ''wg-'' @ wg_suffix e port
                          in case wg_address e wg_config_path of
                               None \<Rightarrow> (Inl Exception, h3)
                             | Some wg_addr \<Rightarrow>
                                (let (ok3, h4) = run_cmd e (run_cmds h3 (wg_cleanup_cmds t wg_name))
                                                   (LinkAddWireguard wg_name)
                                 in if \<not> ok3
                                    then (Inr False,
                                          run_cmds h4 [LinkDelete veth_host, NetnsDelete ns_name])
                                    else
                                     (let (ok4, h5) = run_cmd e h4 (WgSetconf wg_config_path wg_name)
                                      in if \<not> ok4
                                         then (Inr False,
                                               run_cmds h5 [LinkDelete wg_name, LinkDelete veth_host,
                                                            NetnsDelete ns_name])
                                         else
                                          (let h6 = run_cmds h5
                                                      (wg_attach_cmds t wg_name wg_addr
                                                       @ routing_cmds t wg_name endpoint_ip
                                                       @ nat_cmds t wg_name
                                                       @ dnat_forward_cmds t port)
                                           in case write_resolv_conf e h6 ns_name of
                                                None \<Rightarrow> (Inl Exception, h6)
                                              | Some h7 \<Rightarrow>
                                                  (Inr True,
                                                   if xray_binary_ok e then call_refresh e h7 True
                                                   else h7)))))))))"

text \<open>\<open>delete_setup\<close>, lines 2711-2745: the rules are removed whatever exists.\<close>

definition rule_removal_cmds :: "delete_topology \<Rightarrow> int \<Rightarrow> cmd list" where
  "rule_removal_cmds d port =
     (let q = [CHR 0x27];
          log = (\<lambda>tag. '' -j LOG --log-prefix '' @ q @ ''['' @ tag @ ''-'' @ str_int port @ ''] '' @ q
                        @ '' --log-level 4'')
      in map (\<lambda>proto. Sh None (quiet (ipt_dnat ''-D'' proto port (d_ns_ip d)))) [''tcp'', ''udp'']
         @ [Sh None (quiet (ipt_masquerade ''-D'' (d_subnet d) (d_veth_host d)))]
         @ concat (map (\<lambda>proto.
             [Sh None (quiet (ipt_forward_in ''-D FORWARD'' proto (d_ns_ip d) port)),
              Sh None (quiet (ipt_forward_out ''-D FORWARD'' proto (d_ns_ip d)))])
             [''tcp'', ''udp''])
         @ map (\<lambda>proto.
             Sh None (quiet (''iptables -t nat -D PREROUTING -p '' @ proto @ '' --dport ''
                             @ str_int port @ log ''DNAT''))) [''tcp'', ''udp'']
         @ concat (map (\<lambda>proto.
             [Sh None (quiet (''iptables -D FORWARD -p '' @ proto @ '' -d '' @ d_ns_ip d
                              @ ''/32 --dport '' @ str_int port @ log ''FWD'')),
              Sh None (quiet (''iptables -D FORWARD -p '' @ proto @ '' -s '' @ d_ns_ip d
                              @ ''/32'' @ log ''RET''))])
             [''tcp'', ''udp'']))"

datatype delete_result = Deleted | InvalidPort

text \<open>
  \<open>delete_setup\<close>, lines 2660-2752. Without a port argument the port is read from
  the terminal, and the function returns at once when the line is not an integer.
\<close>

definition delete_setup :: "env \<Rightarrow> host \<Rightarrow> int option \<Rightarrow> string \<Rightarrow> delete_result \<times> host" where
  "delete_setup e h port_arg input_line =
     (case (case port_arg of Some p \<Rightarrow> Some p | None \<Rightarrow> parse_int (strip input_line)) of
        None \<Rightarrow> (InvalidPort, h)
      | Some port \<Rightarrow>
          (let ns_list = netns_list e (trace h);
               h0 = snd (run_cmd e h NetnsList);
               d = delete_topology port ns_list;
               h1 = run_cmds h0
                      ((if d_namespace_exists d then [NetnsDelete (d_ns_name d)] else [])
                       @ [LinkDelete (d_veth_host d)]
                       @ rule_removal_cmds d port)
           in (Deleted, delete_setup_state e h1 port)))"

subsection \<open>Restore orchestrator\<close>

text \<open>\<open>restore_all_setups\<close>, lines 988-1008: one tunnel's failure does not stop the loop.\<close>

fun restore_loop :: "env \<Rightarrow> host \<Rightarrow> nat \<Rightarrow> (int \<times> string) list \<Rightarrow> nat \<times> host" where
  "restore_loop e h restored_count [] = (restored_count, h)"
| "restore_loop e h restored_count ((port, wg_config_path) # rest) =
     (let ns_name = ''ns-'' @ str_int port;
          ns_list = netns_list e (trace h);
          h0 = snd (run_cmd e h NetnsList)
      in if ns_name \<in> set ns_list then restore_loop e h0 restored_count rest
         else if wg_config_path = [] \<or> \<not> is_file e wg_config_path
         then restore_loop e h0 restored_count rest
         else (case restore_setup e h0 port wg_config_path of
                 (Inr True, h1) \<Rightarrow> restore_loop e h1 (restored_count + 1) rest
               | (_, h1) \<Rightarrow> restore_loop e h1 restored_count rest))"

text \<open>Lines 958-976: the state store, and failing that the detected tunnels.\<close>

definition restore_discover :: "env \<Rightarrow> host \<Rightarrow> (int \<times> string) list \<times> host" where
  "restore_discover e h =
     (let (tunnels, h0) = load_all_setup_states e h
      in if tunnels = []
         then (let detected = detected_tunnels e
               in if detected \<noteq> []
                  then load_all_setup_states e
                         (foldl (\<lambda>h' (port, wg_config_path).
                                   if wg_config_path \<noteq> [] \<and> is_file e wg_config_path
                                   then save_setup_state e h' port wg_config_path
                                   else h') h0 detected)
                  else (tunnels, h0))
         else (tunnels, h0))"

text \<open>Lines 1010-1019: the forced refresh after the loop, and its guard.\<close>

definition restore_final_refresh :: "env \<Rightarrow> host \<Rightarrow> host" where
  "restore_final_refresh e h =
     (let h' = h\<lparr>PANEL_DB_PATH := load_panel_state (persisted_panel_db e) (PANEL_DB_PATH h)\<rparr>
      in if (case PANEL_DB_PATH h' of None \<Rightarrow> False | Some p \<Rightarrow> p \<noteq> [] \<and> is_file e p)
         then call_refresh e h' True
         else h')"

text \<open>\<open>restore_all_setups\<close>, lines 956-1024.\<close>

definition restore_all_setups :: "env \<Rightarrow> host \<Rightarrow> host" where
  "restore_all_setups e h =
     (let (tunnels, h1) = restore_discover e h
      in if tunnels = [] then h1
         else (let (restored_count, h2) = restore_loop e h1 0 tunnels
               in if restored_count > 0 \<or> tunnels \<noteq> [] then restore_final_refresh e h2
                  else h2))"

text \<open>
  Sample surroundings: every command succeeds, no namespace exists, the endpoint
  resolves, the one configuration file \<open>/root/wg0.conf\<close> exists, no file operation
  fails, and no credential source is configured. Variants follow.
\<close>

definition all_ok :: "cmd list \<Rightarrow> cmd \<Rightarrow> bool" where
  "all_ok hist c = True"

definition no_namespaces :: "cmd list \<Rightarrow> string list" where
  "no_namespaces hist = []"

definition sample_resolve :: "string \<Rightarrow> string \<times> string" where
  "sample_resolve conf = (''vpn.example.org'', ''203.0.113.7'')"

definition sample_wg_suffix :: "int \<Rightarrow> string" where
  "sample_wg_suffix port = ''0a1b2c3d''"

definition sample_wg_address :: "string \<Rightarrow> string option" where
  "sample_wg_address conf = Some ''10.0.0.2/32''"

definition sample_is_file :: "string \<Rightarrow> bool" where
  "sample_is_file p = (p = ''/root/wg0.conf'')"

definition no_fs_error :: "string \<Rightarrow> bool" where
  "no_fs_error p = False"

definition sample_env :: env where
  "sample_env =
     \<lparr>rc_ok = all_ok, netns_list = no_namespaces, resolve_endpoint_ip = sample_resolve,
      wg_suffix = sample_wg_suffix, wg_address = sample_wg_address, is_file = sample_is_file,
      fs_error = no_fs_error, xray_binary_ok = True, persisted_panel_db = None,
      detected_tunnels = []\<rparr>"

definition empty_host :: host where
  "empty_host =
     \<lparr>trace = [], state_dir = [], resolv_conf = [], PANEL_DB_PATH = None, refresh_calls = []\<rparr>"



text \<open>The namespace of port 51000 exists.\<close>

definition ns_51000_exists :: "cmd list \<Rightarrow> string list" where
  "ns_51000_exists hist = [''ns-51000'']"

text \<open>A host whose state store holds the record of port 51000.\<close>

definition host_with_51000 :: host where
  "host_with_51000 =
     empty_host\<lparr>state_dir := [(''tunnel-51000.state'',
                                ''51000'' @ [CHR 0x0A] @ ''/root/wg0.conf'' @ [CHR 0x0A])]\<rparr>"

section \<open>Verified properties\<close>

subsection \<open>Topology\<close>

lemma subnet_octet_range: "2 \<le> subnet_octet p \<and> subnet_octet p \<le> 251"
  by (simp add: subnet_octet_def)

lemma subnet_octet_collision: "subnet_octet (p + 250) = subnet_octet p"
  by (simp add: subnet_octet_def)

text \<open>
  Claim C4. For every port in 1..65535 the subnet octet \<open>(p mod 250) + 2\<close> lies in
  2..251; the octet of \<open>p\<close> equals the octet of \<open>p + 250\<close> whenever \<open>p + 250\<close> is still
  a port; and create, restore, delete (outside its legacy \<open>nsxray\<close> branch, which
  derives no octet), debug and real-time logging all compute this same octet and
  build their addresses from it.
\<close>

theorem C4_subnet_octet:
  "(1 \<le> p \<and> p \<le> 65535 \<longrightarrow> 2 \<le> subnet_octet p \<and> subnet_octet p \<le> 251)
   \<and> (1 \<le> p \<and> p + 250 \<le> 65535 \<longrightarrow> subnet_octet p = subnet_octet (p + 250))
   \<and> t_subnet_octet (create_topology p) = subnet_octet p
   \<and> t_subnet_octet (restore_topology p) = subnet_octet p
   \<and> restore_topology p = create_topology p
   \<and> d_subnet_octet (delete_topology p ns_list)
       = (if d_ns_name (delete_topology p ns_list) = ''nsxray'' then None
          else Some (subnet_octet p))
   \<and> (d_ns_name (delete_topology p ns_list) \<noteq> ''nsxray'' \<longrightarrow>
        d_ns_ip (delete_topology p ns_list) = t_ns_ip (create_topology p)
        \<and> d_subnet (delete_topology p ns_list) = t_subnet (create_topology p)
        \<and> d_veth_host (delete_topology p ns_list) = t_veth_host (create_topology p))
   \<and> fst (debug_topology p) = subnet_octet p
   \<and> fst (realtime_logging_topology p) = subnet_octet p"
  using subnet_octet_range [of p] subnet_octet_collision [of p]
  by (simp add: create_topology_def restore_topology_def delete_topology_def
        debug_topology_def realtime_logging_topology_def subnet_octet_def Let_def)

theorem C4_subnet_octet_witness:
  "subnet_octet 250 = 2 \<and> subnet_octet 500 = 2 \<and> subnet_octet 249 = 251
   \<and> t_subnet_octet (create_topology 51000) = 2
   \<and> d_subnet_octet (delete_topology 51000 [''ns-51000'']) = Some 2"
proof -
  have a: "subnet_octet 250 = subnet_octet (250 + 250)"
    using C4_subnet_octet [of 250 "[]"] by simp
  have b: "2 \<le> subnet_octet 250 \<and> subnet_octet 249 \<le> 251"
    using C4_subnet_octet [of 250 "[]"] C4_subnet_octet [of 249 "[]"] by simp
  have c: "t_subnet_octet (create_topology 51000) = subnet_octet 51000"
    using C4_subnet_octet [of 51000 "[]"] by simp
  have d: "d_ns_name (delete_topology 51000 [''ns-51000'']) \<noteq> ''nsxray''"
    by (simp add: delete_topology_def str_int_def str_nat.simps digit_char_def)
  have e: "d_subnet_octet (delete_topology 51000 [''ns-51000'']) = Some (subnet_octet 51000)"
    using C4_subnet_octet [of 51000 "[''ns-51000'']"] d by simp
  show ?thesis using a b c e by (simp add: subnet_octet_def)
qed

subsection \<open>Content hash\<close>

text \<open>
  Claim C5. The content hash is invariant under permutation of the identifier list:
  two lists with the same elements in the same multiplicities get the same digest,
  since the digest is taken of the ascending-sorted, newline-joined sequence.
\<close>

theorem C5_hash_permutation_invariant:
  "mset xs = mset ys \<Longrightarrow> get_uuids_hash md5 xs = get_uuids_hash md5 ys"
proof -
  assume "mset xs = mset ys"
  then have "sort xs = sort ys"
    by (simp add: properties_for_sort)
  then show ?thesis
    by (simp add: get_uuids_hash_def)
qed

theorem C5_hash_permutation_invariant_witness:
  "get_uuids_hash id [''a'', ''b''] = get_uuids_hash id [''b'', ''a'']"
proof -
  have h: "mset [''a'', ''b''] = mset [''b'', ''a'']" by simp
  show ?thesis using C5_hash_permutation_invariant [OF h] by simp
qed

subsection \<open>Per-port identifier file\<close>

lemma universal_newlines_id: "CHR 0x0D \<notin> set s \<Longrightarrow> universal_newlines s = s"
  by (induction s rule: universal_newlines.induct) auto

lemma file_lines_line:
  "CHR 0x0A \<notin> set u \<Longrightarrow> file_lines (u @ CHR 0x0A # rest) = (u @ [CHR 0x0A]) # file_lines rest"
  by (induction u) auto

lemma file_lines_concat:
  "\<forall>u \<in> set xs. CHR 0x0A \<notin> set u \<Longrightarrow>
   file_lines (concat (map (\<lambda>u. u @ [CHR 0x0A]) xs)) = map (\<lambda>u. u @ [CHR 0x0A]) xs"
  by (induction xs) (auto simp: file_lines_line)

lemma isspace_LF: "isspace (CHR 0x0A)"
  by (simp add: isspace_def py_whitespace_def)

lemma isspace_CR: "isspace (CHR 0x0D)"
  by (simp add: isspace_def py_whitespace_def)

lemma dropWhile_no_space: "\<forall>c \<in> set s. \<not> isspace c \<Longrightarrow> dropWhile isspace s = s"
  by (cases s) auto

lemma strip_line:
  assumes "\<forall>c \<in> set u. \<not> isspace c"
  shows "strip (u @ [CHR 0x0A]) = u"
proof -
  have a: "dropWhile isspace (u @ [CHR 0x0A]) = (if u = [] then [] else u @ [CHR 0x0A])"
    using assms isspace_LF by (cases u) auto
  have b: "dropWhile isspace (rev u) = rev u"
    using assms by (intro dropWhile_no_space) simp
  show ?thesis
    using a b isspace_LF by (simp add: strip_def)
qed

lemma nonempty_comprehension:
  "[f l. l \<leftarrow> ls, f l \<noteq> []] = filter (\<lambda>s. s \<noteq> []) (map f ls)"
  by (induction ls) auto

lemma strip_lines:
  "\<forall>u \<in> set xs. \<forall>c \<in> set u. \<not> isspace c \<Longrightarrow>
   map strip (map (\<lambda>u. u @ [CHR 0x0A]) xs) = xs"
  by (induction xs) (simp_all add: strip_line)

text \<open>
  Claim C10. Round trip of the per-port identifier file: when every identifier is a
  non-empty string without whitespace or newline characters, and the file can be
  written and read back, \<open>load_uuids_from_file p\<close> right after
  \<open>save_uuids_to_file p ids\<close> returns the identifiers sorted ascending with
  duplicates kept, that is \<open>sorted(ids)\<close>.
\<close>

theorem C10_uuid_file_round_trip:
  assumes wr: "\<not> write_error fs (uuid_file_path p)"
      and rd: "\<not> read_error fs (uuid_file_path p)"
      and ok: "\<forall>u \<in> set ids. u \<noteq> [] \<and> (\<forall>c \<in> set u. \<not> isspace c)"
  shows "load_uuids_from_file (save_uuids_to_file fs p ids) p = Some (sort ids)"
proof -
  let ?xs = "sort ids"
  let ?content = "concat (map (\<lambda>u. u @ [CHR 0x0A]) ?xs)"
  have ok': "\<forall>u \<in> set ?xs. u \<noteq> [] \<and> (\<forall>c \<in> set u. \<not> isspace c)"
    using ok by simp
  have nocr: "CHR 0x0D \<notin> set ?content"
    using ok' isspace_CR by auto
  have nolf: "\<forall>u \<in> set ?xs. CHR 0x0A \<notin> set u"
    using ok' isspace_LF by auto
  have lines: "read_lines ?content = map (\<lambda>u. u @ [CHR 0x0A]) ?xs"
    unfolding read_lines_def universal_newlines_id [OF nocr]
    by (rule file_lines_concat [OF nolf])
  have strips: "map strip (map (\<lambda>u. u @ [CHR 0x0A]) ?xs) = ?xs"
    using ok' by (intro strip_lines) simp
  have "[strip line. line \<leftarrow> read_lines ?content, strip line \<noteq> []] = ?xs"
  proof -
    have "[strip line. line \<leftarrow> read_lines ?content, strip line \<noteq> []]
            = filter (\<lambda>s. s \<noteq> []) (map strip (read_lines ?content))"
      by (rule nonempty_comprehension)
    also have "\<dots> = filter (\<lambda>s. s \<noteq> []) ?xs"
      using lines strips by simp
    also have "\<dots> = ?xs"
      using ok' by (simp add: filter_id_conv)
    finally show ?thesis .
  qed
  then show ?thesis
    using wr rd by (simp add: load_uuids_from_file_def save_uuids_to_file_def Let_def)
qed

theorem C10_uuid_file_round_trip_witness:
  "load_uuids_from_file
     (save_uuids_to_file \<lparr>files = Map.empty, write_error = (\<lambda>_. False), read_error = (\<lambda>_. False)\<rparr>
        51000 [''u2'', ''u1'', ''u2''])
     51000 = Some [''u1'', ''u2'', ''u2'']"
proof -
  have h: "\<forall>u \<in> set [''u2'', ''u1'', ''u2'']. u \<noteq> [] \<and> (\<forall>c \<in> set u. \<not> isspace c)"
    by (simp add: isspace_def py_whitespace_def)
  show ?thesis
    using C10_uuid_file_round_trip [of "\<lparr>files = Map.empty, write_error = (\<lambda>_. False), read_error = (\<lambda>_. False)\<rparr>" 51000, OF _ _ h]
    by simp
qed

subsection \<open>Change detector\<close>

text \<open>
  The decision equals the disjunction the code computes: forced, or the source's
  modification time is not the recorded one (none recorded counts), or no earlier
  hash is known, or the earlier hash differs from the current one.
\<close>

lemma refresh_detect_change_iff:
  assumes "uuids \<noteq> []"
  shows "fst (refresh_detect_change md5 io st mt uuids force) =
         Some (force \<or> db_file_changed io st mt
               \<or> old_hash io st = None
               \<or> old_hash io st \<noteq> Some (get_uuids_hash md5 uuids))"
  using assms
  by (auto simp: refresh_detect_change_def Let_def)

lemma refresh_detect_change_first_call:
  "uuids \<noteq> [] \<Longrightarrow>
   fst (refresh_detect_change md5 io initial_sync_state mt uuids force) = Some True"
  by (simp add: refresh_detect_change_def initial_sync_state_def Let_def
        db_file_changed_def load_last_db_mtime_def)

lemma refresh_detect_change_second_call:
  assumes "uuids \<noteq> []" and "m \<noteq> 0"
      and "\<not> mtime_write_error io" and "\<not> mtime_read_error io"
  shows "fst (refresh_detect_change md5 io
                (snd (refresh_detect_change md5 io st (Some m) uuids force))
                (Some m) uuids False) = Some False"
  using assms
  by (auto simp: refresh_detect_change_def Let_def db_file_changed_def old_hash_def
        load_last_db_mtime_def save_last_db_mtime_def save_last_uuid_hash_def
        split: option.splits)

text \<open>
  Claim C2, evaluated where it fails. A source file whose modification time is 0.0
  (the epoch) is never recorded, because line 1320 tests the time for truthiness:
  the second call with the same identifiers, the same modification time and no
  force still decides to restart.
\<close>

theorem C2_zero_mtime_second_call:
  "fst (refresh_detect_change id no_io_errors initial_sync_state
          (Some 0) [''u1''] False) = Some True
   \<and> fst (refresh_detect_change id no_io_errors
            (snd (refresh_detect_change id no_io_errors initial_sync_state
                    (Some 0) [''u1''] False))
            (Some 0) [''u1''] False) = Some True
   \<and> fst (refresh_detect_change id no_io_errors
            (snd (refresh_detect_change id no_io_errors initial_sync_state
                    (Some 1) [''u1''] False))
            (Some 1) [''u1''] False) = Some False"
  by (simp add: refresh_detect_change_def initial_sync_state_def no_io_errors_def Let_def
        db_file_changed_def old_hash_def
        load_last_db_mtime_def save_last_db_mtime_def save_last_uuid_hash_def
        load_last_uuid_hash_def get_uuids_hash_def)

theorem C2_zero_mtime_second_call_witness:
  "fst (refresh_detect_change id no_io_errors
          (snd (refresh_detect_change id no_io_errors initial_sync_state
                  (Some 0) [''u1''] False))
          (Some 0) [''u1''] False) = Some True"
  by (rule C2_zero_mtime_second_call [THEN conjunct2, THEN conjunct1])

subsection \<open>Background watcher\<close>

lemma noninteractive_not_interrupted:
  "lookup_raises t \<noteq> Some KeyboardInterrupt \<Longrightarrow> refresh_raises t \<noteq> Some KeyboardInterrupt \<Longrightarrow>
   tr_outcome (refresh_uuids_for_all_namespaces_noninteractive p t) \<noteq> Raised KeyboardInterrupt"
  by (auto simp: refresh_uuids_for_all_namespaces_noninteractive_def Let_def
      split: option.splits py_exc.splits)

text \<open>
  With a non-negative interval the loop is still running after any sequence of
  ticks none of which is cut by a keyboard interrupt, and it has slept once per tick.
\<close>

lemma watcher_loop_keeps_running:
  "0 \<le> i \<Longrightarrow>
   \<forall>t \<in> set ticks. lookup_raises t \<noteq> Some KeyboardInterrupt
                    \<and> refresh_raises t \<noteq> Some KeyboardInterrupt \<Longrightarrow>
   fst (watcher_loop i w ticks) = Running
   \<and> length (slept (snd (watcher_loop i w ticks))) = length (slept w) + length ticks"
proof (induction ticks arbitrary: w)
  case Nil
  then show ?case by simp
next
  case (Cons t ts)
  have ni: "tr_outcome (refresh_uuids_for_all_namespaces_noninteractive (panel_db_path w) t)
              \<noteq> Raised KeyboardInterrupt"
    using Cons.prems by (simp add: noninteractive_not_interrupted)
  have rest: "\<forall>t \<in> set ts. lookup_raises t \<noteq> Some KeyboardInterrupt
                    \<and> refresh_raises t \<noteq> Some KeyboardInterrupt"
    using Cons.prems by simp
  show ?case
    using ni Cons.IH [OF Cons.prems(1) rest] Cons.prems(1)
    by (simp add: Let_def sleep_def split: outcome.splits py_exc.splits)
qed

text \<open>
  With a negative interval the first tick that is not cut by a keyboard interrupt
  ends the thread: the sleep raises outside the \<open>try\<close> block.
\<close>

lemma watcher_loop_negative_interval:
  "i < 0 \<Longrightarrow> lookup_raises t \<noteq> Some KeyboardInterrupt \<Longrightarrow>
   refresh_raises t \<noteq> Some KeyboardInterrupt \<Longrightarrow>
   fst (watcher_loop i w (t # ts)) = Died"
  using noninteractive_not_interrupted [of t "panel_db_path w"]
  by (simp add: Let_def sleep_def split: outcome.splits py_exc.splits)

lemma noninteractive_lookup_raises:
  "lookup_raises t = Some e \<Longrightarrow>
   tr_outcome (refresh_uuids_for_all_namespaces_noninteractive p t) = Raised e
   \<and> \<not> tr_refresh_called (refresh_uuids_for_all_namespaces_noninteractive p t)
   \<and> \<not> tr_error_logged (refresh_uuids_for_all_namespaces_noninteractive p t)"
  by (simp add: refresh_uuids_for_all_namespaces_noninteractive_def Let_def)

lemma watcher_loop_failures_below_limit:
  "0 \<le> i \<Longrightarrow>
   \<forall>t \<in> set ticks. lookup_raises t = Some Exception \<Longrightarrow>
   consecutive_errors w + length ticks < 10 \<Longrightarrow>
   fst (watcher_loop i w ticks) = Running
   \<and> consecutive_errors (snd (watcher_loop i w ticks)) = consecutive_errors w + length ticks
   \<and> slept (snd (watcher_loop i w ticks)) = slept w @ replicate (length ticks) i"
proof (induction ticks arbitrary: w)
  case Nil
  then show ?case by simp
next
  case (Cons t ts)
  have t: "lookup_raises t = Some Exception" using Cons.prems by simp
  show ?case
    using Cons.prems Cons.IH noninteractive_lookup_raises [OF t]
    by (simp add: Let_def sleep_def replicate_app_Cons_same)
qed

lemma watcher_loop_append:
  "fst (watcher_loop i w xs) = Running \<Longrightarrow>
   watcher_loop i w (xs @ ys) = watcher_loop i (snd (watcher_loop i w xs)) ys"
proof (induction xs arbitrary: w)
  case Nil
  then show ?case by simp
next
  case (Cons t ts)
  let ?r = "refresh_uuids_for_all_namespaces_noninteractive (panel_db_path w) t"
  let ?w1 = "w\<lparr>panel_db_path := tr_panel_db_path ?r,
                 refreshes := refreshes w + (if tr_refresh_called ?r then 1 else 0),
                 errors_logged := errors_logged w + (if tr_error_logged ?r then 1 else 0)\<rparr>"
  show ?case
  proof (cases "tr_outcome ?r")
    case Returned
    show ?thesis
    proof (cases "sleep i (?w1\<lparr>consecutive_errors := 0\<rparr>)")
      case None
      then have "fst (watcher_loop i w (t # ts)) = Died"
        using Returned by (simp add: Let_def)
      then show ?thesis using Cons.prems by simp
    next
      case (Some w3)
      then have step: "watcher_loop i w (t # zs) = watcher_loop i w3 zs" for zs
        using Returned by (simp add: Let_def)
      show ?thesis
        using Cons.prems Cons.IH [of w3] by (simp only: step append_Cons)
    qed
  next
    case (Raised e)
    show ?thesis
    proof (cases e)
      case KeyboardInterrupt
      then have "fst (watcher_loop i w (t # ts)) = Stopped"
        using Raised by (simp add: Let_def)
      then show ?thesis using Cons.prems by simp
    next
      case Exception
      let ?c = "consecutive_errors ?w1 + 1"
      let ?w2 = "?w1\<lparr>consecutive_errors := ?c, errors_logged := errors_logged ?w1 + 1\<rparr>"
      show ?thesis
      proof (cases "?c \<ge> 10")
        case True
        show ?thesis
        proof (cases "sleep (i * 2) ?w2")
          case None
          then have "fst (watcher_loop i w (t # ts)) = Died"
            using Raised Exception True by (simp add: Let_def)
          then show ?thesis using Cons.prems by simp
        next
          case (Some w3)
          then have step: "watcher_loop i w (t # zs)
              = watcher_loop i (w3\<lparr>consecutive_errors := 0\<rparr>) zs" for zs
            using Raised Exception True by (simp add: Let_def)
          show ?thesis
            using Cons.prems Cons.IH [of "w3\<lparr>consecutive_errors := 0\<rparr>"]
            by (simp only: step append_Cons)
        qed
      next
        case False
        show ?thesis
        proof (cases "sleep i ?w2")
          case None
          then have "fst (watcher_loop i w (t # ts)) = Died"
            using Raised Exception False by (simp add: Let_def)
          then show ?thesis using Cons.prems by simp
        next
          case (Some w3)
          then have step: "watcher_loop i w (t # zs) = watcher_loop i w3 zs" for zs
            using Raised Exception False by (simp add: Let_def)
          show ?thesis
            using Cons.prems Cons.IH [of w3] by (simp only: step append_Cons)
        qed
      qed
    qed
  qed
qed

lemma watcher_loop_tenth_failure:
  assumes "lookup_raises t = Some Exception" and "consecutive_errors w = 9" and "0 \<le> i"
  shows "fst (watcher_loop i w [t]) = Running
         \<and> consecutive_errors (snd (watcher_loop i w [t])) = 0
         \<and> slept (snd (watcher_loop i w [t])) = slept w @ [i * 2]"
  using assms noninteractive_lookup_raises [OF assms(1)]
  by (simp add: Let_def sleep_def)

text \<open>
  Ten consecutive ticks whose exception reaches the loop, starting from a counter
  of zero, sleep nine times the interval and then twice the interval, and leave the
  counter at zero.
\<close>

lemma watcher_loop_backoff:
  assumes "length ticks = 10" and "\<forall>t \<in> set ticks. lookup_raises t = Some Exception"
      and "consecutive_errors w = 0" and "0 \<le> i"
  shows "fst (watcher_loop i w ticks) = Running
         \<and> consecutive_errors (snd (watcher_loop i w ticks)) = 0
         \<and> slept (snd (watcher_loop i w ticks)) = slept w @ replicate 9 i @ [i * 2]"
proof -
  obtain xs t where split: "ticks = xs @ [t]" and len: "length xs = 9"
    using assms(1) by (cases ticks rule: rev_cases) auto
  have xs: "\<forall>t \<in> set xs. lookup_raises t = Some Exception"
    and t: "lookup_raises t = Some Exception"
    using assms(2) split by auto
  have first: "fst (watcher_loop i w xs) = Running
     \<and> consecutive_errors (snd (watcher_loop i w xs)) = consecutive_errors w + length xs
     \<and> slept (snd (watcher_loop i w xs)) = slept w @ replicate (length xs) i"
    using watcher_loop_failures_below_limit [OF assms(4) xs] assms(3) len by simp
  have nine: "consecutive_errors (snd (watcher_loop i w xs)) = 9"
    using first assms(3) len by simp
  show ?thesis
    using first watcher_loop_tenth_failure [OF t nine assms(4)] len
    by (simp add: split watcher_loop_append)
qed

text \<open>
  A tick whose credential source is unset after the lookup, or is not an existing
  file, returns without calling the refresh, whether the path was configured in
  this process or persisted.
\<close>

lemma noninteractive_skip:
  assumes "lookup_raises t = None"
      and "db_path = (if \<not> truthy p then load_panel_state (persisted_db_path t) p else p)"
      and "\<not> truthy db_path \<or> (\<exists>q. db_path = Some q \<and> \<not> db_isfile t q)"
  shows "tr_outcome (refresh_uuids_for_all_namespaces_noninteractive p t) = Returned
         \<and> \<not> tr_refresh_called (refresh_uuids_for_all_namespaces_noninteractive p t)"
  using assms
  by (auto simp: refresh_uuids_for_all_namespaces_noninteractive_def Let_def)

text \<open>
  An exception raised by the refresh is caught and logged inside the wrapper, which
  returns normally.
\<close>

lemma noninteractive_refresh_error_caught:
  assumes "lookup_raises t = None" and "refresh_raises t = Some Exception"
      and "truthy p" and "\<exists>q. p = Some q \<and> db_isfile t q"
  shows "refresh_uuids_for_all_namespaces_noninteractive p t =
           \<lparr>tr_outcome = Returned, tr_panel_db_path = p,
            tr_refresh_called = True, tr_error_logged = True\<rparr>"
  using assms
  by (auto simp: refresh_uuids_for_all_namespaces_noninteractive_def Let_def)

text \<open>
  Claim C9. The claim asks that after ten consecutive failed ticks the loop sleeps
  for twice the interval and resets its counter. With the credential source
  configured and the refresh raising an exception in each of ten consecutive ticks,
  the loop of the code keeps running and logs ten errors, but it sleeps the plain
  interval after each of the ten ticks and never twice the interval: the wrapper
  has caught the exception, so the loop counts every one of these ticks as a
  success and its counter never leaves zero.
\<close>

theorem C9_refresh_failures_no_backoff:
  "fst (watcher_loop 5 watcher_configured (replicate 10 tick_refresh_error)) = Running
   \<and> slept (snd (watcher_loop 5 watcher_configured (replicate 10 tick_refresh_error)))
       = [5, 5, 5, 5, 5, 5, 5, 5, 5, 5]
   \<and> consecutive_errors
         (snd (watcher_loop 5 watcher_configured (replicate 10 tick_refresh_error))) = 0
   \<and> refreshes (snd (watcher_loop 5 watcher_configured (replicate 10 tick_refresh_error))) = 10
   \<and> errors_logged
         (snd (watcher_loop 5 watcher_configured (replicate 10 tick_refresh_error))) = 10"
proof -
  have "watcher_loop 5 watcher_configured (replicate 10 tick_refresh_error)
        = (Running, watcher_start\<lparr>panel_db_path := Some ''/etc/x-ui/x-ui.db'',
                                   slept := [5, 5, 5, 5, 5, 5, 5, 5, 5, 5],
                                   refreshes := 10, errors_logged := 10\<rparr>)"
    by (simp add: numeral_eq_Suc watcher_configured_def watcher_start_def
          tick_refresh_error_def always_file_def sleep_def
          refresh_uuids_for_all_namespaces_noninteractive_def truthy_def Let_def)
  then show ?thesis
    by (simp add: watcher_start_def)
qed

theorem C9_refresh_failures_no_backoff_witness:
  "slept (snd (watcher_loop 5 watcher_configured (replicate 10 tick_refresh_error)))
     = [5, 5, 5, 5, 5, 5, 5, 5, 5, 5]"
  by (rule C9_refresh_failures_no_backoff [THEN conjunct2, THEN conjunct1])

subsection \<open>Credential source adapter\<close>

lemma proxies_loop_raises:
  "\<exists>row \<in> set rows. proxy_uuid loads row = Inl Exception \<Longrightarrow>
   proxies_loop loads uuids rows = Inl Exception"
proof (induction rows arbitrary: uuids)
  case Nil
  then show ?case by simp
next
  case (Cons row rows)
  show ?case
  proof (cases "proxy_uuid loads row")
    case (Inl e)
    then show ?thesis by (cases e) (simp_all add: proxy_uuid_def split: prod.splits if_splits sql_value.splits loads_result.splits json.splits option.splits)
  next
    case (Inr u)
    then have "\<exists>row \<in> set rows. proxy_uuid loads row = Inl Exception"
      using Cons.prems by auto
    then show ?thesis
      using Cons.IH Inr by (cases u) simp_all
  qed
qed

lemma proxies_loop_returns:
  "\<forall>row \<in> set rows. proxy_uuid loads row \<noteq> Inl Exception \<Longrightarrow>
   proxies_loop loads uuids rows = Inr (uuids @ proxies_ids loads rows)"
proof (induction rows arbitrary: uuids)
  case Nil
  then show ?case by (simp add: proxies_ids_def List.map_filter_simps)
next
  case (Cons row rows)
  have rest: "\<forall>row \<in> set rows. proxy_uuid loads row \<noteq> Inl Exception"
    using Cons.prems by simp
  show ?case
  proof (cases "proxy_uuid loads row")
    case (Inl e)
    then show ?thesis
      using Cons.prems by (cases e) (simp_all add: proxy_uuid_def split: prod.splits if_splits sql_value.splits loads_result.splits json.splits option.splits)
  next
    case (Inr u)
    then show ?thesis
      using Cons.IH [OF rest] by (cases u) (simp_all add: proxies_ids_def List.map_filter_simps)
  qed
qed

lemma users_loop_extends: "\<exists>added. users_loop uuids rows = uuids @ added"
proof (induction rows arbitrary: uuids)
  case Nil
  then show ?case by simp
next
  case (Cons val rows)
  show ?case
  proof (cases val)
    case (SqlText s)
    show ?thesis
    proof (cases "strip s \<noteq> [] \<and> strip s \<notin> set uuids")
      case True
      obtain added where "users_loop (uuids @ [strip s]) rows = (uuids @ [strip s]) @ added"
        using Cons.IH by blast
      then show ?thesis
        using True SqlText by simp
    next
      case False
      then show ?thesis
        using Cons.IH [of uuids] SqlText by auto
    qed
  qed (use Cons.IH [of uuids] in simp_all)
qed

lemma starts_with_proxies:
  assumes "r = p @ added"
  shows "take (length p) r = p \<and> (\<forall>x. count_list p x \<le> count_list r x)"
  using assms by simp

text \<open>
  Claim C1, as amended. For a credential source with both supported schemas, and
  \<open>prows\<close> the rows that the query on \<open>proxies\<close> yields (all of them, or those before
  a \<open>sqlite3.Error\<close>): provided \<open>json.loads\<close> raises no exception other than
  \<open>JSONDecodeError\<close> on a settings field, the extraction returns a list that begins
  with the identifiers of the settings-field table (\<open>proxies\<close>) in row order, each as
  often as that table's rows yield it, so an identifier found in two rows of that
  table is returned at least twice. What the user-record table adds after them is
  not stated here. The theorem also records the other case: when \<open>json.loads\<close>
  raises another exception on a settings field, that exception leaves the
  extraction.
\<close>

theorem C1_extract_multiplicity:
  assumes "db_is_file db"
      and "db_tables db = Result tables"
      and "''proxies'' \<in> set tables" and "''users'' \<in> set tables"
      and "db_proxies_cols db = Result pcols"
      and "''settings'' \<in> set pcols" and "''user_id'' \<in> set pcols"
      and "yielded (db_proxies_rows db) = prows"
      and "db_users_cols db = Result ucols" and "''uuid'' \<in> set ucols"
  shows "((\<exists>row \<in> set prows. proxy_uuid loads row = Inl Exception) \<longrightarrow>
            extract_uuids_from_sqlite loads db = Inl Exception)
         \<and> ((\<forall>row \<in> set prows. proxy_uuid loads row \<noteq> Inl Exception) \<longrightarrow>
              (case extract_uuids_from_sqlite loads db of
                 Inl e \<Rightarrow> False
               | Inr r \<Rightarrow>
                   take (length (proxies_ids loads prows)) r = proxies_ids loads prows
                   \<and> (\<forall>x. count_list (proxies_ids loads prows) x \<le> count_list r x)))"
proof (intro conjI impI)
  assume "\<exists>row \<in> set prows. proxy_uuid loads row = Inl Exception"
  then have "proxies_loop loads [] prows = Inl Exception"
    by (rule proxies_loop_raises)
  then show "extract_uuids_from_sqlite loads db = Inl Exception"
    using assms
    by (cases "db_proxies_rows db")
       (simp_all add: extract_uuids_from_sqlite_def proxies_stage_def Let_def)
next
  let ?p = "proxies_ids loads prows"
  assume "\<forall>row \<in> set prows. proxy_uuid loads row \<noteq> Inl Exception"
  then have loop: "proxies_loop loads [] prows = Inr ?p"
    using proxies_loop_returns [of prows loads "[]"] by simp
  have stage: "proxies_stage loads db tables [] = StageDone ?p
      \<or> proxies_stage loads db tables [] = StageSqliteError ?p"
    using assms loop by (cases "db_proxies_rows db") (simp_all add: proxies_stage_def)
  obtain u where u: "users_stage db tables ?p = StageDone u
      \<or> users_stage db tables ?p = StageSqliteError u"
    and ext: "\<exists>added. u = ?p @ added"
    using assms users_loop_extends [of ?p]
    by (cases "db_users_rows db") (auto simp: users_stage_def)
  have fallback: "\<exists>added. (if v = [] then db_raw_scan db else v) = ?p @ added"
    if "\<exists>added. v = ?p @ added" for v
    using that by (cases "v = []") auto
  have "\<exists>r. extract_uuids_from_sqlite loads db = Inr r \<and> (\<exists>added. r = ?p @ added)"
  proof -
    from stage show ?thesis
    proof
      assume first: "proxies_stage loads db tables [] = StageDone ?p"
      from u show ?thesis
      proof
        assume "users_stage db tables ?p = StageDone u"
        then show ?thesis
          using assms first fallback [OF ext]
          by (simp add: extract_uuids_from_sqlite_def Let_def)
      next
        assume "users_stage db tables ?p = StageSqliteError u"
        then show ?thesis
          using assms first fallback [OF ext]
          by (simp add: extract_uuids_from_sqlite_def Let_def)
      qed
    next
      assume "proxies_stage loads db tables [] = StageSqliteError ?p"
      then show ?thesis
        using assms fallback [of ?p]
        by (simp add: extract_uuids_from_sqlite_def Let_def)
    qed
  qed
  then obtain r added where r: "extract_uuids_from_sqlite loads db = Inr r"
    and app: "r = ?p @ added"
    by blast
  from starts_with_proxies [OF app] r
  show "case extract_uuids_from_sqlite loads db of
          Inl e \<Rightarrow> False
        | Inr r \<Rightarrow>
            take (length ?p) r = ?p \<and> (\<forall>x. count_list ?p x \<le> count_list r x)"
    by simp
qed

lemma settings_a_nonempty: "settings_a \<noteq> []"
  by (simp add: settings_a_def)

lemma sample_proxy_uuid: "proxy_uuid sample_loads (SqlText settings_a, SqlInt n) =
    (if n = 0 then Inr None else Inr (Some ''a''))"
  by (simp add: proxy_uuid_def sample_loads_def settings_a_nonempty strip_def isspace_def
        py_whitespace_def)

theorem C1_extract_multiplicity_witness:
  "(case extract_uuids_from_sqlite sample_loads db_same_table_twice of
      Inl e \<Rightarrow> False
    | Inr r \<Rightarrow> take 2 r = [''a'', ''a''] \<and> 2 \<le> count_list r ''a'')"
proof -
  have ids: "proxies_ids sample_loads [(SqlText settings_a, SqlInt 1), (SqlText settings_a, SqlInt 2)]
               = [''a'', ''a'']"
    by (simp add: proxies_ids_def List.map_filter_simps sample_proxy_uuid)
  have ok: "\<forall>row \<in> set [(SqlText settings_a, SqlInt 1), (SqlText settings_a, SqlInt 2)].
              proxy_uuid sample_loads row \<noteq> Inl Exception"
    by (simp add: sample_proxy_uuid)
  have inst: "case extract_uuids_from_sqlite sample_loads db_same_table_twice of
          Inl e \<Rightarrow> False
        | Inr r \<Rightarrow>
            take (length (proxies_ids sample_loads
                    [(SqlText settings_a, SqlInt 1), (SqlText settings_a, SqlInt 2)])) r
              = proxies_ids sample_loads
                    [(SqlText settings_a, SqlInt 1), (SqlText settings_a, SqlInt 2)]
            \<and> (\<forall>x. count_list (proxies_ids sample_loads
                    [(SqlText settings_a, SqlInt 1), (SqlText settings_a, SqlInt 2)]) x
                      \<le> count_list r x)"
    by (rule C1_extract_multiplicity
          [where tables = "[''proxies'', ''users'']"
             and pcols = "[''id'', ''user_id'', ''type'', ''settings'']"
             and ucols = "[''id'', ''uuid'']", THEN conjunct2, THEN mp, OF _ _ _ _ _ _ _ _ _ _ ok])
       (simp_all add: db_same_table_twice_def)
  show ?thesis
  proof (cases "extract_uuids_from_sqlite sample_loads db_same_table_twice")
    case (Inl e)
    then show ?thesis using inst by simp
  next
    case (Inr r)
    then have both: "take (length [''a'', ''a'']) r = [''a'', ''a'']
        \<and> (\<forall>x. count_list [''a'', ''a''] x \<le> count_list r x)"
      using inst by (simp only: ids sum.case) simp
    have "take 2 r = [''a'', ''a'']"
      using both by (simp add: numeral_2_eq_2)
    moreover have "count_list [''a'', ''a''] ''a'' \<le> count_list r ''a''"
      using both by blast
    ultimately show ?thesis
      using Inr by simp
  qed
qed

text \<open>
  The claim as written fails in both directions: an identifier present in both
  tables is returned once, not more than once; an identifier present in two rows
  of the settings-field table is returned twice, not once.
\<close>

theorem C1_counterexample:
  "extract_uuids_from_sqlite sample_loads db_both_tables = Inr [''a'']
   \<and> extract_uuids_from_sqlite sample_loads db_same_table_twice = Inr [''a'', ''a'', ''b'']"
  by (simp add: extract_uuids_from_sqlite_def proxies_stage_def users_stage_def
        db_both_tables_def db_same_table_twice_def sample_proxy_uuid
        strip_def isspace_def py_whitespace_def Let_def)

subsection \<open>Sample values\<close>

lemma str_int_51000: "str_int 51000 = ''51000''"
  by (simp add: str_int_def str_nat.simps digit_char_def)

lemma parse_state_51000:
  "parse_state (''51000'' @ [CHR 0x0A] @ ''/root/wg0.conf'' @ [CHR 0x0A])
     = Inr (Some (51000, ''/root/wg0.conf''))"
  by (simp add: parse_state_def read_lines_def strip_def isspace_def py_whitespace_def
        parse_int_def parse_nat_def is_digit_def digits_value_def digit_val_def)

lemma load_host_with_51000:
  assumes "is_file e ''/root/wg0.conf''"
      and "\<not> fs_error e (state_file_path ''tunnel-51000.state'')"
  shows "load_all_setup_states e host_with_51000 = ([(51000, ''/root/wg0.conf'')], host_with_51000)"
  using assms
  by (simp add: load_all_setup_states_def load_state_file_def host_with_51000_def empty_host_def
        startswith_def endswith_def parse_state_51000 [simplified])

lemma restore_loop_51000_exists:
  assumes "netns_list e = ns_51000_exists"
  shows "restore_loop e host_with_51000 0 [(51000, ''/root/wg0.conf'')]
           = (0, host_with_51000\<lparr>trace := [NetnsList]\<rparr>)"
  using assms
  by (simp add: str_int_51000 run_cmd_def ns_51000_exists_def host_with_51000_def empty_host_def)

subsection \<open>Restore\<close>

text \<open>
  Claim C6. Restore is idempotent: when the namespace of the port is in the list
  of namespaces, \<open>restore_setup\<close> reports success and has run one command only,
  the listing of the namespaces, which creates and deletes nothing; the state
  store, the written files and every other part of the state are as before.
\<close>

theorem C6_restore_idempotent:
  "''ns-'' @ str_int port \<in> set (netns_list e (trace h)) \<Longrightarrow>
   restore_setup e h port wg_config_path = (Inr True, h\<lparr>trace := trace h @ [NetnsList]\<rparr>)
   \<and> creates NetnsList = None \<and> deletes NetnsList = None"
  by (simp add: restore_setup_def restore_topology_def run_cmd_def Let_def)

theorem C6_restore_idempotent_witness:
  "restore_setup (sample_env\<lparr>netns_list := ns_51000_exists\<rparr>) host_with_51000 51000
     ''/root/wg0.conf''
   = (Inr True, host_with_51000\<lparr>trace := [NetnsList]\<rparr>)"
proof -
  have h: "''ns-'' @ str_int 51000
             \<in> set (netns_list (sample_env\<lparr>netns_list := ns_51000_exists\<rparr>) (trace host_with_51000))"
    by (simp add: str_int_51000 ns_51000_exists_def)
  show ?thesis
    using C6_restore_idempotent [OF h, of "''/root/wg0.conf''"]
    by (simp add: host_with_51000_def empty_host_def)
qed

text \<open>
  Claim C7, as amended. After a run of \<open>restore_all_setups\<close> that found at least
  one record in the state store, the orchestrator loads the persisted credential
  source and, if a source is then configured and its file exists, calls the
  refresh with \<open>force_restart\<close> set, whatever the restores of the single tunnels
  did; if no source is configured or its file is missing, it calls no refresh.
\<close>

theorem C7_restore_all_resync:
  "(fst (load_all_setup_states e h) \<noteq> [] \<longrightarrow>
      restore_all_setups e h =
        restore_final_refresh e
          (snd (restore_loop e (snd (load_all_setup_states e h)) 0
                  (fst (load_all_setup_states e h)))))
   \<and> refresh_calls (restore_final_refresh e h2) =
       refresh_calls h2 @
         (if (case load_panel_state (persisted_panel_db e) (PANEL_DB_PATH h2) of
                None \<Rightarrow> False
              | Some p \<Rightarrow> p \<noteq> [] \<and> is_file e p)
          then [(False, True)] else [])"
  by (auto simp: restore_all_setups_def restore_discover_def restore_final_refresh_def
        call_refresh_def Let_def split: prod.splits option.splits)

theorem C7_restore_all_resync_witness:
  "refresh_calls
     (restore_all_setups
        (sample_env\<lparr>netns_list := ns_51000_exists, is_file := always_file,
                     persisted_panel_db := Some ''/etc/x-ui/x-ui.db''\<rparr>)
        host_with_51000) = [(False, True)]"
proof -
  let ?e = "sample_env\<lparr>netns_list := ns_51000_exists, is_file := always_file,
                         persisted_panel_db := Some ''/etc/x-ui/x-ui.db''\<rparr>"
  let ?h2 = "host_with_51000\<lparr>trace := [NetnsList]\<rparr>"
  have e: "netns_list ?e = ns_51000_exists" "is_file ?e = always_file"
    "persisted_panel_db ?e = Some ''/etc/x-ui/x-ui.db''" "fs_error ?e = no_fs_error"
    by (simp_all add: sample_env_def)
  have load: "load_all_setup_states ?e host_with_51000
                = ([(51000, ''/root/wg0.conf'')], host_with_51000)"
    by (rule load_host_with_51000) (simp_all add: e always_file_def no_fs_error_def)
  have loop: "restore_loop ?e host_with_51000 0 [(51000, ''/root/wg0.conf'')] = (0, ?h2)"
    by (rule restore_loop_51000_exists) (simp add: e)
  have ne: "fst (load_all_setup_states ?e host_with_51000) \<noteq> []"
    by (simp add: load)
  have "restore_all_setups ?e host_with_51000 = restore_final_refresh ?e ?h2"
    using C7_restore_all_resync [of ?e host_with_51000 ?h2] ne
    by (simp add: load loop del: restore_loop.simps)
  moreover have "refresh_calls (restore_final_refresh ?e ?h2) = [(False, True)]"
    using C7_restore_all_resync [of ?e host_with_51000 ?h2]
    by (simp add: e load_panel_state_def always_file_def host_with_51000_def empty_host_def)
  ultimately show ?thesis by simp
qed

text \<open>
  The claim as written fails: with one record in the state store, its namespace
  already up and no credential source configured, no refresh is called at all.
\<close>

theorem C7_counterexample:
  "fst (load_all_setup_states (sample_env\<lparr>netns_list := ns_51000_exists\<rparr>) host_with_51000)
     = [(51000, ''/root/wg0.conf'')]
   \<and> refresh_calls (restore_all_setups (sample_env\<lparr>netns_list := ns_51000_exists\<rparr>)
                      host_with_51000) = []"
proof -
  let ?e = "sample_env\<lparr>netns_list := ns_51000_exists\<rparr>"
  have e: "netns_list ?e = ns_51000_exists" "persisted_panel_db ?e = None"
    "is_file ?e ''/root/wg0.conf''" "\<not> fs_error ?e (state_file_path ''tunnel-51000.state'')"
    by (simp_all add: sample_env_def sample_is_file_def no_fs_error_def)
  have h: "PANEL_DB_PATH host_with_51000 = None" "refresh_calls host_with_51000 = []"
    by (simp_all add: host_with_51000_def empty_host_def)
  have load: "load_all_setup_states ?e host_with_51000
                = ([(51000, ''/root/wg0.conf'')], host_with_51000)"
    by (rule load_host_with_51000 [OF e(3,4)])
  have loop: "restore_loop ?e host_with_51000 0 [(51000, ''/root/wg0.conf'')]
                = (0, host_with_51000\<lparr>trace := [NetnsList]\<rparr>)"
    by (rule restore_loop_51000_exists [OF e(1)])
  have "restore_all_setups ?e host_with_51000
          = restore_final_refresh ?e (host_with_51000\<lparr>trace := [NetnsList]\<rparr>)"
    unfolding restore_all_setups_def restore_discover_def load
    by (simp add: loop del: restore_loop.simps)
  then show ?thesis
    by (simp add: load restore_final_refresh_def load_panel_state_def e h)
qed

subsection \<open>Delete and the state store\<close>

text \<open>
  \<open>int\<close> reads back what \<open>str\<close> prints, so the file names of distinct ports are
  distinct, and a state directory that only \<open>save_setup_state\<close> and
  \<open>delete_setup_state\<close> have written is well formed.
\<close>

lemma digit_char_props:
  "d < 10 \<Longrightarrow> is_digit (digit_char d) \<and> digit_val (digit_char d) = d
                \<and> \<not> isspace (digit_char d) \<and> digit_char d \<noteq> CHR ''-''
                \<and> digit_char d \<noteq> CHR ''+''"
  unfolding digit_char_def is_digit_def digit_val_def isspace_def py_whitespace_def
  by (auto simp: less_Suc_eq numeral_eq_Suc nth_Cons')

lemma str_nat_digits: "str_nat n \<noteq> [] \<and> list_all is_digit (str_nat n)"
proof (induction n rule: str_nat.induct)
  case (1 n)
  show ?case
  proof (cases "n < 10")
    case True
    then show ?thesis
      using digit_char_props [of n] by (simp add: str_nat.simps [of n])
  next
    case False
    then show ?thesis
      using 1 digit_char_props [of "n mod 10"] by (simp add: str_nat.simps [of n])
  qed
qed

lemma digits_ok_all: "list_all is_digit s \<Longrightarrow> digits_ok True s"
  by (induction s) simp_all

lemma digits_ok_nonempty: "s \<noteq> [] \<Longrightarrow> list_all is_digit s \<Longrightarrow> digits_ok b s"
  by (cases s) (simp_all add: digits_ok_all)

lemma digits_fold_str_nat:
  "foldl (\<lambda>a c. 10 * a + digit_val c) 0 (str_nat n) = n"
proof (induction n rule: str_nat.induct)
  case (1 n)
  show ?case
  proof (cases "n < 10")
    case True
    then show ?thesis
      using digit_char_props [of n] by (simp add: str_nat.simps [of n])
  next
    case False
    then show ?thesis
      using 1 digit_char_props [of "n mod 10"] by (simp add: str_nat.simps [of n])
  qed
qed

lemma parse_nat_str_nat: "parse_nat (str_nat n) = Some n"
proof -
  have "filter is_digit (str_nat n) = str_nat n"
    using str_nat_digits [of n] by (simp add: list_all_iff)
  then show ?thesis
    using str_nat_digits [of n]
    by (simp add: parse_nat_def digits_value_def digits_ok_nonempty digits_fold_str_nat)
qed

lemma parse_int_str_int: "parse_int (str_int i) = Some i"
proof (cases "i < 0")
  case True
  then show ?thesis
    by (simp add: parse_int_def str_int_def parse_nat_str_nat)
next
  case False
  obtain c cs where s: "str_nat (nat i) = c # cs"
    using str_nat_digits [of "nat i"] by (cases "str_nat (nat i)") auto
  have "is_digit c"
    using str_nat_digits [of "nat i"] s by simp
  then have "c \<noteq> CHR ''-''" "c \<noteq> CHR ''+''"
    by (auto simp: is_digit_def)
  then show ?thesis
    using False parse_nat_str_nat [of "nat i"] s
    by (simp add: parse_int_def str_int_def)
qed

lemma str_int_inj:
  assumes "str_int a = str_int b"
  shows "a = b"
proof -
  have "parse_int (str_int a) = parse_int (str_int b)"
    using assms by (rule arg_cong)
  then show ?thesis
    by (simp only: parse_int_str_int option.inject)
qed

lemma digit_not_space: "is_digit c \<Longrightarrow> \<not> isspace c"
  by (auto simp: is_digit_def isspace_def py_whitespace_def)

lemma str_nat_no_space:
  assumes "c \<in> set (str_nat n)"
  shows "\<not> isspace c"
proof -
  have "is_digit c"
    using str_nat_digits [of n] assms unfolding list_all_iff by blast
  then show ?thesis
    by (rule digit_not_space)
qed

lemma str_int_no_space: "str_int i \<noteq> [] \<and> (\<forall>c \<in> set (str_int i). \<not> isspace c)"
proof -
  have m: "\<not> isspace (CHR ''-'')"
    by (simp add: isspace_def py_whitespace_def)
  show ?thesis
  proof (cases "i < 0")
    case True
    then show ?thesis
      using m str_nat_no_space by (auto simp: str_int_def)
  next
    case False
    then show ?thesis
      using str_nat_digits [of "nat i"] str_nat_no_space by (auto simp: str_int_def)
  qed
qed

lemma universal_newlines_line':
  "\<forall>c \<in> set u. c \<noteq> CHR 0x0D \<Longrightarrow>
   universal_newlines (u @ CHR 0x0A # rest) = u @ CHR 0x0A # universal_newlines rest"
  by (induction u) simp_all

lemma universal_newlines_line:
  "CHR 0x0D \<notin> set u \<Longrightarrow>
   universal_newlines (u @ CHR 0x0A # rest) = u @ CHR 0x0A # universal_newlines rest"
  by (rule universal_newlines_line') blast

lemma parse_state_saved:
  assumes "parse_state (str_int port @ [CHR 0x0A] @ path @ [CHR 0x0A]) = Inr (Some (k, p))"
  shows "k = port"
proof -
  let ?u = "str_int port"
  have ns: "?u \<noteq> []" "\<forall>c \<in> set ?u. \<not> isspace c"
    using str_int_no_space by auto
  have nocr: "CHR 0x0D \<notin> set ?u" and nolf: "CHR 0x0A \<notin> set ?u"
    using ns(2) isspace_CR isspace_LF by auto
  obtain ls where lines: "read_lines (?u @ [CHR 0x0A] @ path @ [CHR 0x0A]) = (?u @ [CHR 0x0A]) # ls"
    by (simp add: read_lines_def universal_newlines_line [OF nocr] file_lines_line [OF nolf])
  have "[strip line. line \<leftarrow> (?u @ [CHR 0x0A]) # ls, strip line \<noteq> []]
          = ?u # [strip line. line \<leftarrow> ls, strip line \<noteq> []]"
    using ns by (simp add: strip_line)
  then show ?thesis
    using assms unfolding parse_state_def lines
    by (auto simp: Let_def parse_int_str_int split: list.splits)
qed

lemma set_update_subset:
  "set (AList.update k v al) \<subseteq> insert (k, v) (set al)"
  by (induction al) auto

lemma store_wf_save:
  assumes "store_wf (state_dir h)"
  shows "store_wf (state_dir (save_setup_state e h port path))"
proof (cases "fs_error e (state_file_path (state_file_name port))")
  case True
  then show ?thesis using assms by (simp add: save_setup_state_def)
next
  case False
  let ?content = "str_int port @ [CHR 0x0A] @ path @ [CHR 0x0A]"
  have sd: "state_dir (save_setup_state e h port path)
              = AList.update (state_file_name port) ?content (state_dir h)"
    using False by (simp add: save_setup_state_def)
  have "case parse_state content of
          Inr (Some (k, p)) \<Rightarrow> name = state_file_name k
        | _ \<Rightarrow> True"
    if mem: "(name, content) \<in> set (AList.update (state_file_name port) ?content (state_dir h))"
    for name content
  proof (cases "(name, content) = (state_file_name port, ?content)")
    case True
    then show ?thesis
      using parse_state_saved [of port path]
      by (auto split: sum.splits option.splits)
  next
    case False
    then have "(name, content) \<in> set (state_dir h)"
      using mem set_update_subset [of "state_file_name port" ?content "state_dir h"] by auto
    then show ?thesis
      using assms by (auto simp: store_wf_def list_all_iff)
  qed
  then show ?thesis
    unfolding sd store_wf_def list_all_iff by auto
qed

lemma store_wf_empty: "store_wf []"
  by (simp add: store_wf_def)

lemma store_wf_delete:
  assumes "store_wf (state_dir h)"
  shows "store_wf (state_dir (delete_setup_state e h port))"
proof -
  have "set (state_dir (delete_setup_state e h port)) \<subseteq> set (state_dir h)"
    by (auto simp: delete_setup_state_def Let_def AList.delete_eq)
  then show ?thesis
    using assms unfolding store_wf_def list_all_iff by blast
qed

lemma load_state_file_Keep:
  "load_state_file e filename content = Keep t \<Longrightarrow> parse_state content = Inr (Some t)"
  by (cases "parse_state content")
     (auto simp: load_state_file_def split: if_splits option.splits)

lemma load_states_loop_subset:
  "(port, p) \<in> set (fst (load_states_loop e h tunnels entries)) \<Longrightarrow>
   (port, p) \<in> set tunnels
   \<or> (\<exists>name content. (name, content) \<in> set entries
          \<and> parse_state content = Inr (Some (port, p)))"
proof (induction entries arbitrary: h tunnels)
  case Nil
  then show ?case by simp
next
  case (Cons a entries)
  obtain filename content where a: "a = (filename, content)"
    by (cases a)
  show ?case
  proof (cases "load_state_file e filename content")
    case Skip
    then show ?thesis
      using Cons.prems Cons.IH [of h tunnels] unfolding a by auto
  next
    case (Keep t)
    then show ?thesis
      using Cons.prems Cons.IH [of h "tunnels @ [t]"] load_state_file_Keep [OF Keep]
      unfolding a by auto
  next
    case Remove
    then show ?thesis
      using Cons.prems
        Cons.IH [of "h\<lparr>state_dir := AList.delete filename (state_dir h)\<rparr>" tunnels]
      unfolding a by auto
  qed
qed

lemma delete_setup_state_dir:
  "\<not> fs_error e (state_file_path (state_file_name port)) \<Longrightarrow>
   state_file_name port \<notin> fst ` set (state_dir (delete_setup_state e h port))
   \<and> set (state_dir (delete_setup_state e h port)) \<subseteq> set (state_dir h)"
  by (auto simp: delete_setup_state_def Let_def map_of_eq_None_iff AList.delete_eq
        split: if_splits)

lemma delete_setup_state_trace: "trace (delete_setup_state e h port) = trace h"
  by (simp add: delete_setup_state_def Let_def)

lemma delete_setup_state_gone:
  "\<not> fs_error e (state_file_path (state_file_name port)) \<Longrightarrow>
   map_of (state_dir (delete_setup_state e h port)) (state_file_name port) = None"
  using delete_setup_state_dir [of e port h] by (simp add: map_of_eq_None_iff)

lemma load_all_after_delete:
  assumes nf: "\<not> fs_error e (state_file_path (state_file_name port))"
      and wf: "store_wf (state_dir h)"
  shows "port \<notin> fst ` set (fst (load_all_setup_states e' (delete_setup_state e h port)))"
proof
  assume "port \<in> fst ` set (fst (load_all_setup_states e' (delete_setup_state e h port)))"
  then obtain p where
    "(port, p) \<in> set (fst (load_all_setup_states e' (delete_setup_state e h port)))"
    by auto
  then have "(port, p) \<in> set []
      \<or> (\<exists>name content. (name, content) \<in> set (state_dir (delete_setup_state e h port))
            \<and> parse_state content = Inr (Some (port, p)))"
    unfolding load_all_setup_states_def by (rule load_states_loop_subset)
  then obtain name content
    where mem: "(name, content) \<in> set (state_dir (delete_setup_state e h port))"
      and ps: "parse_state content = Inr (Some (port, p))"
    by auto
  have sub: "set (state_dir (delete_setup_state e h port)) \<subseteq> set (state_dir h)"
    and nokey: "state_file_name port \<notin> fst ` set (state_dir (delete_setup_state e h port))"
    using delete_setup_state_dir [OF nf, of h] by simp_all
  have "(name, content) \<in> set (state_dir h)"
    using mem sub by blast
  then have "name = state_file_name port"
    using wf ps by (auto simp: store_wf_def list_all_iff)
  moreover have "name \<in> fst ` set (state_dir (delete_setup_state e h port))"
    using mem by force
  ultimately show False
    using nokey by simp
qed

lemma delete_setup_eq:
  "delete_setup e h (Some port) line =
     (Deleted,
      delete_setup_state e
        (h\<lparr>trace := trace h @ [NetnsList]
            @ (if d_namespace_exists (delete_topology port (netns_list e (trace h)))
               then [NetnsDelete (d_ns_name (delete_topology port (netns_list e (trace h))))]
               else [])
            @ [LinkDelete (d_veth_host (delete_topology port (netns_list e (trace h))))]
            @ rule_removal_cmds (delete_topology port (netns_list e (trace h))) port\<rparr>)
        port)"
  by (simp add: delete_setup_def run_cmd_def run_cmds_def Let_def)

lemma delete_topology_cases:
  "delete_topology port ns_list =
     (if ''ns-'' @ str_int port \<notin> set ns_list \<and> port = 9349 \<and> ''nsxray'' \<in> set ns_list
      then \<lparr>d_ns_name = ''nsxray'', d_namespace_exists = True, d_subnet_octet = None,
            d_veth_host = ''veth-host'', d_ns_ip = ''10.200.200.2'',
            d_subnet = ''10.200.200.0/24''\<rparr>
      else \<lparr>d_ns_name = ''ns-'' @ str_int port,
            d_namespace_exists = (''ns-'' @ str_int port \<in> set ns_list),
            d_subnet_octet = Some (port mod 250 + 2),
            d_veth_host = ''veth-'' @ str_int port,
            d_ns_ip = ''10.100.'' @ str_int (port mod 250 + 2) @ ''.2'',
            d_subnet = ''10.100.'' @ str_int (port mod 250 + 2) @ ''.0/24''\<rparr>)"
  by (simp add: delete_topology_def Let_def)

lemma rule_removal_cmds_eq:
  "rule_removal_cmds d port =
     (let P = str_int port; q = [CHR 0x27];
          sh = (\<lambda>c. Sh None (c @ '' 2>/dev/null || true''))
      in [sh (''iptables -t nat -D PREROUTING -p tcp --dport '' @ P
                @ '' -j DNAT --to-destination '' @ d_ns_ip d @ '':'' @ P),
          sh (''iptables -t nat -D PREROUTING -p udp --dport '' @ P
                @ '' -j DNAT --to-destination '' @ d_ns_ip d @ '':'' @ P),
          sh (''iptables -t nat -D POSTROUTING -s '' @ d_subnet d @ '' ! -o '' @ d_veth_host d
                @ '' -j MASQUERADE''),
          sh (''iptables -D FORWARD -p tcp -d '' @ d_ns_ip d @ ''/32 --dport '' @ P
                @ '' -j ACCEPT''),
          sh (''iptables -D FORWARD -p tcp -s '' @ d_ns_ip d @ ''/32 -j ACCEPT''),
          sh (''iptables -D FORWARD -p udp -d '' @ d_ns_ip d @ ''/32 --dport '' @ P
                @ '' -j ACCEPT''),
          sh (''iptables -D FORWARD -p udp -s '' @ d_ns_ip d @ ''/32 -j ACCEPT''),
          sh (''iptables -t nat -D PREROUTING -p tcp --dport '' @ P
                @ '' -j LOG --log-prefix '' @ q @ ''[DNAT-'' @ P @ ''] '' @ q
                @ '' --log-level 4''),
          sh (''iptables -t nat -D PREROUTING -p udp --dport '' @ P
                @ '' -j LOG --log-prefix '' @ q @ ''[DNAT-'' @ P @ ''] '' @ q
                @ '' --log-level 4''),
          sh (''iptables -D FORWARD -p tcp -d '' @ d_ns_ip d @ ''/32 --dport '' @ P
                @ '' -j LOG --log-prefix '' @ q @ ''[FWD-'' @ P @ ''] '' @ q
                @ '' --log-level 4''),
          sh (''iptables -D FORWARD -p tcp -s '' @ d_ns_ip d @ ''/32''
                @ '' -j LOG --log-prefix '' @ q @ ''[RET-'' @ P @ ''] '' @ q
                @ '' --log-level 4''),
          sh (''iptables -D FORWARD -p udp -d '' @ d_ns_ip d @ ''/32 --dport '' @ P
                @ '' -j LOG --log-prefix '' @ q @ ''[FWD-'' @ P @ ''] '' @ q
                @ '' --log-level 4''),
          sh (''iptables -D FORWARD -p udp -s '' @ d_ns_ip d @ ''/32''
                @ '' -j LOG --log-prefix '' @ q @ ''[RET-'' @ P @ ''] '' @ q
                @ '' --log-level 4'')])"
  by (simp add: rule_removal_cmds_def Let_def quiet_def ipt_dnat_def ipt_masquerade_def
        ipt_forward_in_def ipt_forward_out_def)


text \<open>
  Claim C8. \<open>delete_setup\<close> with a port completes whether or not the namespace
  exists and whatever the commands return. The commands it runs are exactly these,
  in this order: it lists the namespaces; it deletes the namespace only when it is
  listed (under the port's name, or as the legacy \<open>nsxray\<close> for port 9349); it
  deletes the host link; and it runs the thirteen rule removals, each with its
  errors discarded by \<open>2>/dev/null || true\<close>, whether or not the namespace was
  listed. When the state file can be removed, the state store holds no record
  file for the port afterwards, and in a state directory as \<open>save_setup_state\<close>
  writes it a following \<open>load_all_setup_states\<close> does not return the port.
\<close>

theorem C8_delete_removes_record:
  "fst (delete_setup e h (Some port) line) = Deleted
   \<and> (let P = str_int port;
            ns_list = netns_list e (trace h);
            listed = (''ns-'' @ P \<in> set ns_list);
            legacy = (\<not> listed \<and> port = 9349 \<and> ''nsxray'' \<in> set ns_list);
            ns_name = (if legacy then ''nsxray'' else ''ns-'' @ P);
            veth_host = (if legacy then ''veth-host'' else ''veth-'' @ P);
            ns_ip = (if legacy then ''10.200.200.2''
                     else ''10.100.'' @ str_int (port mod 250 + 2) @ ''.2'');
            subnet = (if legacy then ''10.200.200.0/24''
                      else ''10.100.'' @ str_int (port mod 250 + 2) @ ''.0/24'');
            q = [CHR 0x27];
            sh = (\<lambda>c. Sh None (c @ '' 2>/dev/null || true''))
        in trace (snd (delete_setup e h (Some port) line))
           = trace h @ [NetnsList]
             @ (if listed \<or> legacy then [NetnsDelete ns_name] else [])
             @ [LinkDelete veth_host,
            sh (''iptables -t nat -D PREROUTING -p tcp --dport '' @ P
                  @ '' -j DNAT --to-destination '' @ ns_ip @ '':'' @ P),
            sh (''iptables -t nat -D PREROUTING -p udp --dport '' @ P
                  @ '' -j DNAT --to-destination '' @ ns_ip @ '':'' @ P),
            sh (''iptables -t nat -D POSTROUTING -s '' @ subnet @ '' ! -o '' @ veth_host
                  @ '' -j MASQUERADE''),
            sh (''iptables -D FORWARD -p tcp -d '' @ ns_ip @ ''/32 --dport '' @ P
                  @ '' -j ACCEPT''),
            sh (''iptables -D FORWARD -p tcp -s '' @ ns_ip @ ''/32 -j ACCEPT''),
            sh (''iptables -D FORWARD -p udp -d '' @ ns_ip @ ''/32 --dport '' @ P
                  @ '' -j ACCEPT''),
            sh (''iptables -D FORWARD -p udp -s '' @ ns_ip @ ''/32 -j ACCEPT''),
            sh (''iptables -t nat -D PREROUTING -p tcp --dport '' @ P
                  @ '' -j LOG --log-prefix '' @ q @ ''[DNAT-'' @ P @ ''] '' @ q
                  @ '' --log-level 4''),
            sh (''iptables -t nat -D PREROUTING -p udp --dport '' @ P
                  @ '' -j LOG --log-prefix '' @ q @ ''[DNAT-'' @ P @ ''] '' @ q
                  @ '' --log-level 4''),
            sh (''iptables -D FORWARD -p tcp -d '' @ ns_ip @ ''/32 --dport '' @ P
                  @ '' -j LOG --log-prefix '' @ q @ ''[FWD-'' @ P @ ''] '' @ q
                  @ '' --log-level 4''),
            sh (''iptables -D FORWARD -p tcp -s '' @ ns_ip @ ''/32''
                  @ '' -j LOG --log-prefix '' @ q @ ''[RET-'' @ P @ ''] '' @ q
                  @ '' --log-level 4''),
            sh (''iptables -D FORWARD -p udp -d '' @ ns_ip @ ''/32 --dport '' @ P
                  @ '' -j LOG --log-prefix '' @ q @ ''[FWD-'' @ P @ ''] '' @ q
                  @ '' --log-level 4''),
            sh (''iptables -D FORWARD -p udp -s '' @ ns_ip @ ''/32''
                  @ '' -j LOG --log-prefix '' @ q @ ''[RET-'' @ P @ ''] '' @ q
                  @ '' --log-level 4'')])
   \<and> (\<not> fs_error e (state_file_path (state_file_name port)) \<longrightarrow>
        map_of (state_dir (snd (delete_setup e h (Some port) line))) (state_file_name port)
          = None)
   \<and> (\<not> fs_error e (state_file_path (state_file_name port)) \<and> store_wf (state_dir h) \<longrightarrow>
        port \<notin> fst ` set (fst (load_all_setup_states e'
                                   (snd (delete_setup e h (Some port) line)))))"
proof (intro conjI impI)
  show "fst (delete_setup e h (Some port) line) = Deleted"
    by (simp add: delete_setup_eq)
  have tr: "trace (snd (delete_setup e h (Some port) line))
       = trace h @ [NetnsList]
         @ (if d_namespace_exists (delete_topology port (netns_list e (trace h)))
            then [NetnsDelete (d_ns_name (delete_topology port (netns_list e (trace h))))]
            else [])
         @ [LinkDelete (d_veth_host (delete_topology port (netns_list e (trace h))))]
         @ rule_removal_cmds (delete_topology port (netns_list e (trace h))) port"
    unfolding delete_setup_eq snd_conv delete_setup_state_trace by simp
  show "(let P = str_int port;
                 ns_list = netns_list e (trace h);
                 listed = (''ns-'' @ P \<in> set ns_list);
                 legacy = (\<not> listed \<and> port = 9349 \<and> ''nsxray'' \<in> set ns_list);
                 ns_name = (if legacy then ''nsxray'' else ''ns-'' @ P);
                 veth_host = (if legacy then ''veth-host'' else ''veth-'' @ P);
                 ns_ip = (if legacy then ''10.200.200.2''
                          else ''10.100.'' @ str_int (port mod 250 + 2) @ ''.2'');
                 subnet = (if legacy then ''10.200.200.0/24''
                           else ''10.100.'' @ str_int (port mod 250 + 2) @ ''.0/24'');
                 q = [CHR 0x27];
                 sh = (\<lambda>c. Sh None (c @ '' 2>/dev/null || true''))
             in trace (snd (delete_setup e h (Some port) line))
                = trace h @ [NetnsList]
                  @ (if listed \<or> legacy then [NetnsDelete ns_name] else [])
                  @ [LinkDelete veth_host,
                 sh (''iptables -t nat -D PREROUTING -p tcp --dport '' @ P
                       @ '' -j DNAT --to-destination '' @ ns_ip @ '':'' @ P),
                 sh (''iptables -t nat -D PREROUTING -p udp --dport '' @ P
                       @ '' -j DNAT --to-destination '' @ ns_ip @ '':'' @ P),
                 sh (''iptables -t nat -D POSTROUTING -s '' @ subnet @ '' ! -o '' @ veth_host
                       @ '' -j MASQUERADE''),
                 sh (''iptables -D FORWARD -p tcp -d '' @ ns_ip @ ''/32 --dport '' @ P
                       @ '' -j ACCEPT''),
                 sh (''iptables -D FORWARD -p tcp -s '' @ ns_ip @ ''/32 -j ACCEPT''),
                 sh (''iptables -D FORWARD -p udp -d '' @ ns_ip @ ''/32 --dport '' @ P
                       @ '' -j ACCEPT''),
                 sh (''iptables -D FORWARD -p udp -s '' @ ns_ip @ ''/32 -j ACCEPT''),
                 sh (''iptables -t nat -D PREROUTING -p tcp --dport '' @ P
                       @ '' -j LOG --log-prefix '' @ q @ ''[DNAT-'' @ P @ ''] '' @ q
                       @ '' --log-level 4''),
                 sh (''iptables -t nat -D PREROUTING -p udp --dport '' @ P
                       @ '' -j LOG --log-prefix '' @ q @ ''[DNAT-'' @ P @ ''] '' @ q
                       @ '' --log-level 4''),
                 sh (''iptables -D FORWARD -p tcp -d '' @ ns_ip @ ''/32 --dport '' @ P
                       @ '' -j LOG --log-prefix '' @ q @ ''[FWD-'' @ P @ ''] '' @ q
                       @ '' --log-level 4''),
                 sh (''iptables -D FORWARD -p tcp -s '' @ ns_ip @ ''/32''
                       @ '' -j LOG --log-prefix '' @ q @ ''[RET-'' @ P @ ''] '' @ q
                       @ '' --log-level 4''),
                 sh (''iptables -D FORWARD -p udp -d '' @ ns_ip @ ''/32 --dport '' @ P
                       @ '' -j LOG --log-prefix '' @ q @ ''[FWD-'' @ P @ ''] '' @ q
                       @ '' --log-level 4''),
                 sh (''iptables -D FORWARD -p udp -s '' @ ns_ip @ ''/32''
                       @ '' -j LOG --log-prefix '' @ q @ ''[RET-'' @ P @ ''] '' @ q
                       @ '' --log-level 4'')])"
  proof (cases "''ns-'' @ str_int port \<notin> set (netns_list e (trace h)) \<and> port = 9349
                \<and> ''nsxray'' \<in> set (netns_list e (trace h))")
    case True
    then have d: "delete_topology port (netns_list e (trace h)) =
        \<lparr>d_ns_name = ''nsxray'', d_namespace_exists = True, d_subnet_octet = None,
         d_veth_host = ''veth-host'', d_ns_ip = ''10.200.200.2'',
         d_subnet = ''10.200.200.0/24''\<rparr>"
      unfolding delete_topology_cases by (rule if_P)
    show ?thesis
      unfolding tr d rule_removal_cmds_eq using True by (auto simp add: Let_def)
  next
    case False
    then have d: "delete_topology port (netns_list e (trace h)) =
        \<lparr>d_ns_name = ''ns-'' @ str_int port,
         d_namespace_exists = (''ns-'' @ str_int port \<in> set (netns_list e (trace h))),
         d_subnet_octet = Some (port mod 250 + 2),
         d_veth_host = ''veth-'' @ str_int port,
         d_ns_ip = ''10.100.'' @ str_int (port mod 250 + 2) @ ''.2'',
         d_subnet = ''10.100.'' @ str_int (port mod 250 + 2) @ ''.0/24''\<rparr>"
      unfolding delete_topology_cases by (rule if_not_P)
    show ?thesis
      unfolding tr d rule_removal_cmds_eq using False by (auto simp add: Let_def)
  qed
  show "map_of (state_dir (snd (delete_setup e h (Some port) line))) (state_file_name port)
          = None"
    if "\<not> fs_error e (state_file_path (state_file_name port))"
    unfolding delete_setup_eq snd_conv by (rule delete_setup_state_gone [OF that])
  show "port \<notin> fst ` set (fst (load_all_setup_states e'
                                   (snd (delete_setup e h (Some port) line))))"
    if "\<not> fs_error e (state_file_path (state_file_name port)) \<and> store_wf (state_dir h)"
    unfolding delete_setup_eq snd_conv
    using that by (intro load_all_after_delete) simp_all
qed


lemma str_int_2: "str_int 2 = ''2''"
  by (simp add: str_int_def str_nat.simps digit_char_def)

theorem C8_delete_removes_record_witness:
  "fst (load_all_setup_states sample_env host_with_51000) = [(51000, ''/root/wg0.conf'')]
   \<and> fst (delete_setup sample_env host_with_51000 (Some 51000) []) = Deleted
   \<and> trace (snd (delete_setup sample_env host_with_51000 (Some 51000) []))
       = [NetnsList,
          LinkDelete ''veth-51000'',
          Sh None ''iptables -t nat -D PREROUTING -p tcp --dport 51000 -j DNAT --to-destination 10.100.2.2:51000 2>/dev/null || true'',
          Sh None ''iptables -t nat -D PREROUTING -p udp --dport 51000 -j DNAT --to-destination 10.100.2.2:51000 2>/dev/null || true'',
          Sh None ''iptables -t nat -D POSTROUTING -s 10.100.2.0/24 ! -o veth-51000 -j MASQUERADE 2>/dev/null || true'',
          Sh None ''iptables -D FORWARD -p tcp -d 10.100.2.2/32 --dport 51000 -j ACCEPT 2>/dev/null || true'',
          Sh None ''iptables -D FORWARD -p tcp -s 10.100.2.2/32 -j ACCEPT 2>/dev/null || true'',
          Sh None ''iptables -D FORWARD -p udp -d 10.100.2.2/32 --dport 51000 -j ACCEPT 2>/dev/null || true'',
          Sh None ''iptables -D FORWARD -p udp -s 10.100.2.2/32 -j ACCEPT 2>/dev/null || true'',
          Sh None (''iptables -t nat -D PREROUTING -p tcp --dport 51000 -j LOG --log-prefix '' @ [CHR 0x27] @ ''[DNAT-51000] '' @ [CHR 0x27]
                    @ '' --log-level 4 2>/dev/null || true''),
          Sh None (''iptables -t nat -D PREROUTING -p udp --dport 51000 -j LOG --log-prefix '' @ [CHR 0x27] @ ''[DNAT-51000] '' @ [CHR 0x27]
                    @ '' --log-level 4 2>/dev/null || true''),
          Sh None (''iptables -D FORWARD -p tcp -d 10.100.2.2/32 --dport 51000 -j LOG --log-prefix '' @ [CHR 0x27] @ ''[FWD-51000] '' @ [CHR 0x27]
                    @ '' --log-level 4 2>/dev/null || true''),
          Sh None (''iptables -D FORWARD -p tcp -s 10.100.2.2/32 -j LOG --log-prefix '' @ [CHR 0x27] @ ''[RET-51000] '' @ [CHR 0x27]
                    @ '' --log-level 4 2>/dev/null || true''),
          Sh None (''iptables -D FORWARD -p udp -d 10.100.2.2/32 --dport 51000 -j LOG --log-prefix '' @ [CHR 0x27] @ ''[FWD-51000] '' @ [CHR 0x27]
                    @ '' --log-level 4 2>/dev/null || true''),
          Sh None (''iptables -D FORWARD -p udp -s 10.100.2.2/32 -j LOG --log-prefix '' @ [CHR 0x27] @ ''[RET-51000] '' @ [CHR 0x27]
                    @ '' --log-level 4 2>/dev/null || true'')]
   \<and> map_of (state_dir (snd (delete_setup sample_env host_with_51000 (Some 51000) [])))
        (state_file_name 51000) = None
   \<and> 51000 \<notin> fst ` set (fst (load_all_setup_states sample_env
                                (snd (delete_setup sample_env host_with_51000 (Some 51000) []))))"
proof -
  have e: "is_file sample_env ''/root/wg0.conf''"
    "\<not> fs_error sample_env (state_file_path ''tunnel-51000.state'')"
    "netns_list sample_env [] = []"
    by (simp_all add: sample_env_def sample_is_file_def no_fs_error_def no_namespaces_def)
  have name: "state_file_name 51000 = ''tunnel-51000.state''"
    by (simp add: state_file_name_def str_int_51000)
  have nf: "\<not> fs_error sample_env (state_file_path (state_file_name 51000))"
    using e(2) by (simp add: name)
  have wf: "store_wf (state_dir host_with_51000)"
    by (simp add: store_wf_def host_with_51000_def empty_host_def name
          parse_state_51000 [simplified])
  have tr: "trace host_with_51000 = []"
    by (simp add: host_with_51000_def empty_host_def)
  note inst = C8_delete_removes_record [of sample_env host_with_51000 51000 "[]" sample_env]
  have c1: "fst (delete_setup sample_env host_with_51000 (Some 51000) []) = Deleted"
    by (rule inst [THEN conjunct1])
  have c2: "trace (snd (delete_setup sample_env host_with_51000 (Some 51000) []))
       = [NetnsList,
          LinkDelete ''veth-51000'',
          Sh None ''iptables -t nat -D PREROUTING -p tcp --dport 51000 -j DNAT --to-destination 10.100.2.2:51000 2>/dev/null || true'',
          Sh None ''iptables -t nat -D PREROUTING -p udp --dport 51000 -j DNAT --to-destination 10.100.2.2:51000 2>/dev/null || true'',
          Sh None ''iptables -t nat -D POSTROUTING -s 10.100.2.0/24 ! -o veth-51000 -j MASQUERADE 2>/dev/null || true'',
          Sh None ''iptables -D FORWARD -p tcp -d 10.100.2.2/32 --dport 51000 -j ACCEPT 2>/dev/null || true'',
          Sh None ''iptables -D FORWARD -p tcp -s 10.100.2.2/32 -j ACCEPT 2>/dev/null || true'',
          Sh None ''iptables -D FORWARD -p udp -d 10.100.2.2/32 --dport 51000 -j ACCEPT 2>/dev/null || true'',
          Sh None ''iptables -D FORWARD -p udp -s 10.100.2.2/32 -j ACCEPT 2>/dev/null || true'',
          Sh None (''iptables -t nat -D PREROUTING -p tcp --dport 51000 -j LOG --log-prefix '' @ [CHR 0x27] @ ''[DNAT-51000] '' @ [CHR 0x27]
                    @ '' --log-level 4 2>/dev/null || true''),
          Sh None (''iptables -t nat -D PREROUTING -p udp --dport 51000 -j LOG --log-prefix '' @ [CHR 0x27] @ ''[DNAT-51000] '' @ [CHR 0x27]
                    @ '' --log-level 4 2>/dev/null || true''),
          Sh None (''iptables -D FORWARD -p tcp -d 10.100.2.2/32 --dport 51000 -j LOG --log-prefix '' @ [CHR 0x27] @ ''[FWD-51000] '' @ [CHR 0x27]
                    @ '' --log-level 4 2>/dev/null || true''),
          Sh None (''iptables -D FORWARD -p tcp -s 10.100.2.2/32 -j LOG --log-prefix '' @ [CHR 0x27] @ ''[RET-51000] '' @ [CHR 0x27]
                    @ '' --log-level 4 2>/dev/null || true''),
          Sh None (''iptables -D FORWARD -p udp -d 10.100.2.2/32 --dport 51000 -j LOG --log-prefix '' @ [CHR 0x27] @ ''[FWD-51000] '' @ [CHR 0x27]
                    @ '' --log-level 4 2>/dev/null || true''),
          Sh None (''iptables -D FORWARD -p udp -s 10.100.2.2/32 -j LOG --log-prefix '' @ [CHR 0x27] @ ''[RET-51000] '' @ [CHR 0x27]
                    @ '' --log-level 4 2>/dev/null || true'')]"
    using inst [THEN conjunct2, THEN conjunct1]
    by (simp add: Let_def tr e(3) str_int_51000 str_int_2)
  have c3: "map_of (state_dir (snd (delete_setup sample_env host_with_51000 (Some 51000) [])))
              (state_file_name 51000) = None"
    using inst [THEN conjunct2, THEN conjunct2, THEN conjunct1] nf by (rule mp)
  have c4: "51000 \<notin> fst ` set (fst (load_all_setup_states sample_env
                                (snd (delete_setup sample_env host_with_51000 (Some 51000) []))))"
    by (rule inst [THEN conjunct2, THEN conjunct2, THEN conjunct2, THEN mp, OF conjI [OF nf wf]])
  have c0: "fst (load_all_setup_states sample_env host_with_51000) = [(51000, ''/root/wg0.conf'')]"
    by (simp only: load_host_with_51000 [OF e(1,2)] fst_conv)
  show ?thesis
    using c0 c1 c2 c3 c4 by (intro conjI)
qed

subsection \<open>Create: failure and teardown\<close>
















end
